theory Spec2Isabelle
  imports Complex_Main
begin

section \<open>RoadSense: the risk scoring and classification engine\<close>

text \<open>
  A shallow embedding of the analytics module of the dashboard client
  (\<^verbatim>\<open>safety-utils.ts\<close> in its percentile-based revision) and of the
  \<^verbatim>\<open>areaAnalytics\<close> computation of \<^verbatim>\<open>dashboard.tsx\<close>.

  Conventions of the embedding.
  \<^item> A JavaScript string is a \<^typ>\<open>string\<close>; a \<^typ>\<open>char\<close> stands for one UTF-16 code
    unit in the range 0..255 (the Latin-1 block). No code unit outside that block
    lowercases to a letter of a keyword used below, save U+212A and U+0130,
    which are outside the modelled alphabet.
  \<^item> A JavaScript number that the code only ever builds from integers (fatality
    counts, scores, tallies, hours) is an \<^typ>\<open>int\<close>. The numbers of the percentile
    computation are \<^typ>\<open>rat\<close>. \<open>calculatePercentile\<close> reads the arithmetic of the
    source as exact; \<open>calculatePercentileDouble\<close> rounds every operation as
    IEEE-754 doubles do, and is the function as it runs. At the percentiles 0,
    25, 50, 75 and 100 and on integer scores below \<open>2 ^ 50\<close> the two agree
    (\<open>calculatePercentileDouble_exact\<close>); the classifier asks for 25 and 75 only.
  \<^item> \<^verbatim>\<open>null\<close> and \<^verbatim>\<open>undefined\<close> are \<^const>\<open>None\<close>; so is \<^verbatim>\<open>NaN\<close> where a
    number is expected.
\<close>

subsection \<open>Strings\<close>

definition toLowerCaseChar :: "char \<Rightarrow> char" where
  "toLowerCaseChar c =
     (let n = (of_char c :: nat)
      in if (65 \<le> n \<and> n \<le> 90) \<or> (192 \<le> n \<and> n \<le> 222 \<and> n \<noteq> 215)
         then char_of (n + 32) else c)"

definition toLowerCase :: "string \<Rightarrow> string" where
  "toLowerCase s = map toLowerCaseChar s"

definition startsWith :: "string \<Rightarrow> string \<Rightarrow> bool" where
  "startsWith s sub = (take (length sub) s = sub)"

text \<open>\<^verbatim>\<open>s.includes(sub)\<close>: \<open>sub\<close> occurs in \<open>s\<close> as a contiguous block.\<close>

fun stringIncludes :: "string \<Rightarrow> string \<Rightarrow> bool" where
  "stringIncludes [] sub = (sub = [])"
| "stringIncludes (c # cs) sub = (startsWith (c # cs) sub \<or> stringIncludes cs sub)"

text \<open>\<^verbatim>\<open>s.split(sep)\<close> for a one-character separator.\<close>

fun split :: "char \<Rightarrow> string \<Rightarrow> string list" where
  "split sep [] = [[]]"
| "split sep (c # cs) =
     (if c = sep then [] # split sep cs
      else (case split sep cs of
              [] \<Rightarrow> [[c]]
            | p # ps \<Rightarrow> (c # p) # ps))"

subsection \<open>\<^verbatim>\<open>parseInt\<close> without a radix argument\<close>

definition isWhiteSpace :: "char \<Rightarrow> bool" where
  "isWhiteSpace c = ((of_char c :: nat) \<in> {9, 10, 11, 12, 13, 32, 160})"

definition digitValue :: "char \<Rightarrow> nat" where
  "digitValue c =
     (let n = (of_char c :: nat)
      in if 48 \<le> n \<and> n \<le> 57 then n - 48
         else if 97 \<le> n \<and> n \<le> 122 then n - 87
         else if 65 \<le> n \<and> n \<le> 90 then n - 55
         else 36)"

definition isRadixDigit :: "nat \<Rightarrow> char \<Rightarrow> bool" where
  "isRadixDigit radix c = (digitValue c < radix)"

definition radixValue :: "int \<Rightarrow> string \<Rightarrow> int" where
  "radixValue radix z = foldl (\<lambda>n c. radix * n + int (digitValue c)) 0 z"

text \<open>
  Leading white space is dropped, a sign is read, a \<^verbatim>\<open>0x\<close> or \<^verbatim>\<open>0X\<close> prefix selects
  radix 16, the longest run of digits is converted and everything after it is
  ignored. \<^const>\<open>None\<close> is \<^verbatim>\<open>NaN\<close>: no digit was found.
\<close>

definition parseInt :: "string \<Rightarrow> int option" where
  "parseInt str =
     (let s = dropWhile isWhiteSpace str;
          sign = (if startsWith s ''-'' \<and> s \<noteq> [] then - 1 else (1::int));
          s1 = (if s \<noteq> [] \<and> (hd s = CHR ''+'' \<or> hd s = CHR ''-'') then tl s else s);
          hex = (take 2 s1 = ''0x'' \<or> take 2 s1 = ''0X'');
          radix = (if hex then 16 else 10);
          s2 = (if hex then drop 2 s1 else s1);
          z = takeWhile (isRadixDigit radix) s2
      in if z = [] then None else Some (sign * radixValue (int radix) z))"

subsection \<open>The record model\<close>

text \<open>
  The columns of the \<^verbatim>\<open>accidents\<close> table that the engine reads. \<^verbatim>\<open>time\<close> and
  \<^verbatim>\<open>area\<close> are \<^verbatim>\<open>notNull\<close>; the others are nullable. \<^verbatim>\<open>injuries\<close> is read by
  the earlier revision of the module only.
\<close>

record Accident =
  accidentId :: string
  time :: string
  area :: string
  injuries :: "int option"
  fatalities :: "int option"
  severity :: "string option"
  causePrimary :: "string option"

datatype SafetyLevel = Safe | Moderate | HighRisk

subsection \<open>Severity score\<close>

text \<open>One round of the \<^verbatim>\<open>forEach\<close> body of \<^verbatim>\<open>calculateSeverityScore\<close>.\<close>

definition scoreStep :: "Accident \<Rightarrow> int \<Rightarrow> int" where
  "scoreStep accident score =
     (let fatalities' = (case fatalities accident of
                           None \<Rightarrow> 0
                         | Some n \<Rightarrow> if n = 0 then 0 else n);
          severity' = toLowerCase (case severity accident of
                                     None \<Rightarrow> ''''
                                   | Some s \<Rightarrow> if s = '''' then '''' else s);
          score1 = score + fatalities' * 10;
          score2 = (if severity' = ''severe'' \<or> severity' = ''fatal''
                    then score1 + 5 else score1);
          score3 = (if severity' = ''moderate'' then score2 + 2 else score2)
      in score3)"

definition calculateSeverityScore :: "Accident list \<Rightarrow> int" where
  "calculateSeverityScore accidents = fold scoreStep accidents 0"

subsection \<open>Percentiles and the classifier\<close>

text \<open>\<^verbatim>\<open>xs[i]\<close> for an integral \<open>i\<close>: \<^verbatim>\<open>undefined\<close> outside the array.\<close>

definition arrayGet :: "'a list \<Rightarrow> int \<Rightarrow> 'a option" where
  "arrayGet xs i = (if 0 \<le> i \<and> i < int (length xs) then Some (xs ! nat i) else None)"

text \<open>
  \<^verbatim>\<open>calculatePercentile\<close> with the arithmetic of its statements read as exact.
  The rounded reading is \<open>calculatePercentileDouble\<close> below.
\<close>

definition calculatePercentile :: "rat list \<Rightarrow> rat \<Rightarrow> rat option" where
  "calculatePercentile scores percentile =
     (if length scores = 0 then Some 0
      else
        let sorted = sort scores;
            index = (percentile / 100) * (of_nat (length sorted) - 1);
            lower = \<lfloor>index\<rfloor>;
            upper = \<lceil>index\<rceil>;
            weight = index - of_int lower
        in if lower = upper then arrayGet sorted lower
           else (case (arrayGet sorted lower, arrayGet sorted upper) of
                   (Some l, Some u) \<Rightarrow> Some (l * (1 - weight) + u * weight)
                 | _ \<Rightarrow> None))"

text \<open>\<^verbatim>\<open>score >= p\<close>, false when \<open>p\<close> is \<^verbatim>\<open>undefined\<close> or \<^verbatim>\<open>NaN\<close>.\<close>

definition scoreAtLeast :: "int \<Rightarrow> rat option \<Rightarrow> bool" where
  "scoreAtLeast score p = (case p of None \<Rightarrow> False | Some v \<Rightarrow> v \<le> of_int score)"

definition calculateSafetyLevelFromAccidents ::
    "Accident list \<Rightarrow> rat list option \<Rightarrow> SafetyLevel" where
  "calculateSafetyLevelFromAccidents accidents allScores =
     (if length accidents = 0 then Safe
      else
        let score = calculateSeverityScore accidents
        in (case allScores of
              None \<Rightarrow>
                if score \<ge> 50 then HighRisk
                else if score \<ge> 20 then Moderate
                else Safe
            | Some population \<Rightarrow>
                if length population = 0 then
                  if score \<ge> 50 then HighRisk
                  else if score \<ge> 20 then Moderate
                  else Safe
                else
                  let percentile75 = calculatePercentile population 75;
                      percentile25 = calculatePercentile population 25
                  in if scoreAtLeast score percentile75 then HighRisk
                     else if scoreAtLeast score percentile25 then Moderate
                     else Safe))"

subsection \<open>The percentile in double precision\<close>

text \<open>
  The numbers of the source are IEEE-754 doubles and each arithmetic operation
  rounds its exact result to the nearest double, ties to the even mantissa. A
  finite double is a rational \<open>m * 2 ^ g\<close> with \<open>\<bar>m\<bar> < 2 ^ 53\<close> and \<open>- 1074 \<le> g\<close>, below
  \<open>2 ^ 1024\<close> in magnitude.

  \<open>binade x\<close> is the exponent \<open>e\<close> with \<open>2 ^ e \<le> \<bar>x\<bar> < 2 ^ (e + 1)\<close>. The doubles
  of that binade are the multiples of \<open>2 ^ (e - 52)\<close>; below \<open>2 ^ (- 1022)\<close> they are
  the multiples of \<open>2 ^ (- 1074)\<close>. A result that rounds to \<open>2 ^ 1024\<close> or beyond is an
  infinity: \<^const>\<open>None\<close>, which so stands for every value that is not a finite
  number.
\<close>

function binadeUp :: "rat \<Rightarrow> int" where
  "binadeUp x = (if x < 2 then 0 else binadeUp (x / 2) + 1)"
  by pat_completeness auto
termination
proof (relation "measure (\<lambda>x. nat \<lfloor>x\<rfloor>)")
  show "wf (measure (\<lambda>x::rat. nat \<lfloor>x\<rfloor>))" by simp
next
  fix x :: rat
  assume "\<not> x < 2"
  then have x: "2 \<le> x" by simp
  have "x / 2 \<le> x - 1" using x by simp
  then have "\<lfloor>x / 2\<rfloor> \<le> \<lfloor>x - 1\<rfloor>" by (rule floor_mono)
  moreover have "\<lfloor>x - 1\<rfloor> = \<lfloor>x\<rfloor> - 1" by simp
  moreover have "2 \<le> \<lfloor>x\<rfloor>" using x by (simp add: le_floor_iff)
  ultimately have "nat \<lfloor>x / 2\<rfloor> < nat \<lfloor>x\<rfloor>" by linarith
  then show "(x / 2, x) \<in> measure (\<lambda>x. nat \<lfloor>x\<rfloor>)" by (simp only: in_measure)
qed

function binadeDown :: "rat \<Rightarrow> int" where
  "binadeDown x = (if x \<le> 0 \<or> 1 \<le> x then 0 else binadeDown (2 * x) - 1)"
  by pat_completeness auto
termination
proof (relation "measure (\<lambda>x. nat \<lfloor>1 / x\<rfloor>)")
  show "wf (measure (\<lambda>x::rat. nat \<lfloor>1 / x\<rfloor>))" by simp
next
  fix x :: rat
  assume "\<not> (x \<le> 0 \<or> 1 \<le> x)"
  then have x: "0 < x" "x < 1" by simp_all
  define y where "y = 1 / x"
  have y: "1 < y" using x by (simp add: y_def)
  have half: "y / 2 = 1 / (2 * x)" by (simp add: y_def)
  have "\<lfloor>y / 2\<rfloor> < \<lfloor>y\<rfloor>"
  proof (cases "2 \<le> y")
    case True
    have "y / 2 \<le> y - 1" using True by simp
    then have "\<lfloor>y / 2\<rfloor> \<le> \<lfloor>y - 1\<rfloor>" by (rule floor_mono)
    moreover have "\<lfloor>y - 1\<rfloor> = \<lfloor>y\<rfloor> - 1" by simp
    moreover have "2 \<le> \<lfloor>y\<rfloor>" using True by (simp add: le_floor_iff)
    ultimately show ?thesis by linarith
  next
    case False
    have "\<lfloor>y / 2\<rfloor> = 0" using y False by (simp add: floor_eq_iff)
    moreover have "\<lfloor>y\<rfloor> = 1" using y False by (simp add: floor_eq_iff)
    ultimately show ?thesis by simp
  qed
  moreover have "0 < \<lfloor>y\<rfloor>" using y by (simp only: less_floor_iff)
  ultimately have "nat \<lfloor>y / 2\<rfloor> < nat \<lfloor>y\<rfloor>" by linarith
  then have "nat \<lfloor>1 / (2 * x)\<rfloor> < nat \<lfloor>1 / x\<rfloor>" unfolding half unfolding y_def .
  then show "(2 * x, x) \<in> measure (\<lambda>x. nat \<lfloor>1 / x\<rfloor>)" by (simp only: in_measure)
qed

declare binadeUp.simps [simp del] binadeDown.simps [simp del]

definition binade :: "rat \<Rightarrow> int" where
  "binade x = (if 1 \<le> \<bar>x\<bar> then binadeUp \<bar>x\<bar> else binadeDown \<bar>x\<bar>)"

definition roundHalfEven :: "rat \<Rightarrow> int" where
  "roundHalfEven r =
     (let f = \<lfloor>r\<rfloor>;
          d = r - of_int f
      in if d < 1 / 2 then f
         else if 1 / 2 < d then f + 1
         else if even f then f
         else f + 1)"

definition roundDouble :: "rat \<Rightarrow> rat option" where
  "roundDouble x =
     (let g = max (binade x - 52) (- 1074);
          y = of_int (roundHalfEven (x / 2 powi g)) * 2 powi g
      in if binade y < 1024 then Some y else None)"

text \<open>
  \<^verbatim>\<open>calculatePercentile\<close> as the doubles compute it: the statements of the source,
  each division, multiplication, subtraction and addition rounded. The scores
  and the percentile are doubles. \<^verbatim>\<open>sorted.length - 1\<close> is an integer below
  \<open>2 ^ 32\<close> and exact; \<^verbatim>\<open>Math.floor\<close> and \<^verbatim>\<open>Math.ceil\<close> are exact. An infinite
  index reads \<^verbatim>\<open>sorted[Infinity]\<close>, which is \<^verbatim>\<open>undefined\<close>.
\<close>

definition calculatePercentileDouble :: "rat list \<Rightarrow> rat \<Rightarrow> rat option" where
  "calculatePercentileDouble scores percentile =
     (if length scores = 0 then Some 0
      else
        let sorted = sort scores
        in (case roundDouble (percentile / 100) of
              None \<Rightarrow> None
            | Some fraction \<Rightarrow>
                (case roundDouble (fraction * (of_nat (length sorted) - 1)) of
                   None \<Rightarrow> None
                 | Some index \<Rightarrow>
                     let lower = \<lfloor>index\<rfloor>;
                         upper = \<lceil>index\<rceil>
                     in (case roundDouble (index - of_int lower) of
                           None \<Rightarrow> None
                         | Some weight \<Rightarrow>
                             if lower = upper then arrayGet sorted lower
                             else (case (arrayGet sorted lower, arrayGet sorted upper) of
                                     (Some l, Some u) \<Rightarrow>
                                       (case roundDouble (1 - weight) of
                                          None \<Rightarrow> None
                                        | Some rest \<Rightarrow>
                                            (case (roundDouble (l * rest), roundDouble (u * weight)) of
                                               (Some a, Some b) \<Rightarrow> roundDouble (a + b)
                                             | _ \<Rightarrow> None))
                                   | _ \<Rightarrow> None)))))"

subsection \<open>The earlier revision of the module\<close>

text \<open>
  The dashboard page imports \<^verbatim>\<open>calculateSafetyLevelFromAccidents\<close> from
  \<^verbatim>\<open>@/lib/safety-utils\<close> and calls it with one argument. Two revisions of that module
  export the function: the percentile-based one above, whose second parameter is
  optional, and an earlier one with a single parameter, which weighs fatalities
  and injuries and has fixed thresholds. The earlier one is modelled here, so that
  statements about the dashboard can be made for either.
\<close>

definition scoreStepEarlier :: "Accident \<Rightarrow> int \<Rightarrow> int" where
  "scoreStepEarlier accident score =
     (let fatalities' = (case fatalities accident of
                           None \<Rightarrow> 0
                         | Some n \<Rightarrow> if n = 0 then 0 else n);
          injuries' = (case injuries accident of
                         None \<Rightarrow> 0
                       | Some n \<Rightarrow> if n = 0 then 0 else n);
          score1 = score + fatalities' * 100;
          score2 = score1 + injuries' * 20;
          score3 = (if fatalities' = 0 \<and> injuries' = 0 then score2 + 1 else score2)
      in score3)"

definition calculateSeverityScoreEarlier :: "Accident list \<Rightarrow> int" where
  "calculateSeverityScoreEarlier accidents = fold scoreStepEarlier accidents 0"

definition calculateSafetyLevelFromAccidentsEarlier :: "Accident list \<Rightarrow> SafetyLevel" where
  "calculateSafetyLevelFromAccidentsEarlier accidents =
     (let severityScore = calculateSeverityScoreEarlier accidents
      in if severityScore \<ge> 150 then HighRisk
         else if severityScore \<ge> 50 then Moderate
         else Safe)"

subsection \<open>Objects used as dictionaries\<close>

text \<open>
  Both \<^verbatim>\<open>reduce\<close> calls of the module accumulate into an object literal \<^verbatim>\<open>{}\<close>.
  Such an object is modelled by its own properties in creation order. Three
  facts of the language matter for what the code computes:
  \<^item> reading a key that is not an own property falls through to
    \<^verbatim>\<open>Object.prototype\<close>, whose property names are listed in
    \<open>objectPrototypeKeys\<close>; the value found there is a function or an object,
    hence truthy, and neither an array nor a number;
  \<^item> assigning to an own key keeps its position, assigning to a new key appends;
  \<^item> \<^verbatim>\<open>Object.entries\<close> lists the keys that are array indices (canonical decimal
    numerals below \<open>2 ^ 32 - 1\<close>) first, in ascending numeric order, and then
    the other keys in creation order.
\<close>

type_synonym 'v jsObject = "(string \<times> 'v) list"

datatype jsError = TypeError

definition objectPrototypeKeys :: "string list" where
  "objectPrototypeKeys =
     [''constructor'', ''__defineGetter__'', ''__defineSetter__'', ''hasOwnProperty'',
      ''__lookupGetter__'', ''__lookupSetter__'', ''isPrototypeOf'',
      ''propertyIsEnumerable'', ''toString'', ''valueOf'', ''__proto__'',
      ''toLocaleString'']"

definition isDecimalDigit :: "char \<Rightarrow> bool" where
  "isDecimalDigit c = (48 \<le> (of_char c :: nat) \<and> (of_char c :: nat) \<le> 57)"

definition isArrayIndex :: "string \<Rightarrow> bool" where
  "isArrayIndex k =
     (k \<noteq> [] \<and> list_all isDecimalDigit k \<and> (k = ''0'' \<or> hd k \<noteq> CHR ''0'')
      \<and> radixValue 10 k < 4294967295)"

definition arrayIndexValue :: "string \<Rightarrow> int" where
  "arrayIndexValue k = radixValue 10 k"

definition objectEntries :: "'v jsObject \<Rightarrow> (string \<times> 'v) list" where
  "objectEntries obj =
     sort_key (\<lambda>p. arrayIndexValue (fst p)) (filter (\<lambda>p. isArrayIndex (fst p)) obj)
     @ filter (\<lambda>p. \<not> isArrayIndex (fst p)) obj"

text \<open>
  \<^verbatim>\<open>obj[k] = v\<close> on own properties, and \<^verbatim>\<open>map.set(k, v)\<close> on a \<^verbatim>\<open>Map\<close>, whose
  entries are kept in insertion order.
\<close>

fun putEntry :: "string \<Rightarrow> 'v \<Rightarrow> (string \<times> 'v) list \<Rightarrow> (string \<times> 'v) list" where
  "putEntry k v [] = [(k, v)]"
| "putEntry k v (p # ps) = (if fst p = k then (k, v) # ps else p # putEntry k v ps)"

subsection \<open>Grouping by area\<close>

text \<open>
  The callback of the \<^verbatim>\<open>reduce\<close> in \<^verbatim>\<open>calculateAreaScores\<close> and in
  \<^verbatim>\<open>areaAnalytics\<close>. When the area names an inherited property the guard
  \<^verbatim>\<open>!acc[accident.area]\<close> is false, no array is created, and the call of
  \<^verbatim>\<open>push\<close> on the inherited value throws.
\<close>

definition groupStep :: "Accident list jsObject \<Rightarrow> Accident \<Rightarrow> jsError + Accident list jsObject" where
  "groupStep acc accident =
     (case map_of acc (area accident) of
        Some areaAccidents \<Rightarrow> Inr (putEntry (area accident) (areaAccidents @ [accident]) acc)
      | None \<Rightarrow>
          if area accident \<in> set objectPrototypeKeys then Inl TypeError
          else Inr (putEntry (area accident) ([] @ [accident]) acc))"

fun reduceGroups :: "Accident list jsObject \<Rightarrow> Accident list \<Rightarrow> jsError + Accident list jsObject" where
  "reduceGroups acc [] = Inr acc"
| "reduceGroups acc (accident # rest) =
     (case groupStep acc accident of
        Inl e \<Rightarrow> Inl e
      | Inr acc' \<Rightarrow> reduceGroups acc' rest)"

definition areaGroups :: "Accident list \<Rightarrow> jsError + Accident list jsObject" where
  "areaGroups accidents = reduceGroups [] accidents"

text \<open>
  \<^verbatim>\<open>calculateAreaScores\<close> returns the object \<^verbatim>\<open>{ areaScores, allScores }\<close>, here the
  pair of the \<^verbatim>\<open>Map\<close>'s entries and the array.
\<close>

definition areaScoreStep ::
    "string \<times> Accident list \<Rightarrow> (string \<times> int) list \<times> int list \<Rightarrow> (string \<times> int) list \<times> int list" where
  "areaScoreStep entry st =
     (let score = calculateSeverityScore (snd entry)
      in (putEntry (fst entry) score (fst st), snd st @ [score]))"

definition calculateAreaScores :: "Accident list \<Rightarrow> jsError + (string \<times> int) list \<times> int list" where
  "calculateAreaScores accidents =
     (case areaGroups accidents of
        Inl e \<Rightarrow> Inl e
      | Inr groups \<Rightarrow> Inr (fold areaScoreStep (objectEntries groups) ([], [])))"

text \<open>
  \<^verbatim>\<open>areaAnalytics\<close> of the dashboard page: the entries of the \<^verbatim>\<open>Map\<close> from area to
  \<^verbatim>\<open>{ count, safetyLevel }\<close>. The page calls the imported classifier with the records
  of the area as its only argument; \<open>classify\<close> stands for that call.
\<close>

definition analyticsStep ::
    "(Accident list \<Rightarrow> SafetyLevel) \<Rightarrow> string \<times> Accident list
       \<Rightarrow> (string \<times> nat \<times> SafetyLevel) list \<Rightarrow> (string \<times> nat \<times> SafetyLevel) list" where
  "analyticsStep classify entry analytics =
     (let safetyLevel = classify (snd entry)
      in putEntry (fst entry) (length (snd entry), safetyLevel) analytics)"

definition areaAnalytics ::
    "(Accident list \<Rightarrow> SafetyLevel) \<Rightarrow> Accident list
       \<Rightarrow> jsError + (string \<times> nat \<times> SafetyLevel) list" where
  "areaAnalytics classify accidents =
     (case areaGroups accidents of
        Inl e \<Rightarrow> Inl e
      | Inr groups \<Rightarrow> Inr (fold (analyticsStep classify) (objectEntries groups) []))"

subsection \<open>Cause ranking\<close>

definition causeOf :: "Accident \<Rightarrow> string" where
  "causeOf accident =
     (case causePrimary accident of
        None \<Rightarrow> ''Unknown''
      | Some c \<Rightarrow> if c = [] then ''Unknown'' else c)"

text \<open>
  The callback of the \<^verbatim>\<open>reduce\<close> in \<^verbatim>\<open>getTopCauses\<close>. For the cause
  \<^verbatim>\<open>__proto__\<close> the value read is the prototype object, the sum is a string, and the
  assignment of a string to \<^verbatim>\<open>__proto__\<close> changes nothing: the record is not
  counted. For a cause that names another inherited property,
  \<^verbatim>\<open>(acc[cause] || 0) + 1\<close> concatenates a string and stores it, the tally is no
  longer a number and the comparator of the later \<^verbatim>\<open>sort\<close> yields \<^verbatim>\<open>NaN\<close>, for
  which the language leaves the order to the implementation: such a run leaves
  the model, which is the result \<^const>\<open>None\<close>.
\<close>

definition tallyStep :: "int jsObject \<Rightarrow> Accident \<Rightarrow> int jsObject option" where
  "tallyStep acc accident =
     (let cause = causeOf accident
      in if cause = ''__proto__'' then Some acc
         else (case map_of acc cause of
                 Some n \<Rightarrow> Some (putEntry cause ((if n = 0 then 0 else n) + 1) acc)
               | None \<Rightarrow>
                   if cause \<in> set objectPrototypeKeys then None
                   else Some (putEntry cause (0 + 1) acc)))"

fun reduceTally :: "int jsObject \<Rightarrow> Accident list \<Rightarrow> int jsObject option" where
  "reduceTally acc [] = Some acc"
| "reduceTally acc (accident # rest) =
     (case tallyStep acc accident of
        None \<Rightarrow> None
      | Some acc' \<Rightarrow> reduceTally acc' rest)"

definition causeCounts :: "Accident list \<Rightarrow> int jsObject option" where
  "causeCounts accidents = reduceTally [] accidents"

text \<open>
  \<^verbatim>\<open>sort((a, b) => b.count - a.count)\<close> is a stable sort by descending count,
  \<^verbatim>\<open>slice(0, 5)\<close> keeps the first five.
\<close>

definition getTopCauses :: "Accident list \<Rightarrow> (string \<times> int) list option" where
  "getTopCauses accidents =
     (case causeCounts accidents of
        None \<Rightarrow> None
      | Some counts \<Rightarrow>
          Some (take 5 (sort_key (\<lambda>e. - snd e) (map (\<lambda>e. (fst e, snd e)) (objectEntries counts)))))"

definition getDominantCause :: "Accident list \<Rightarrow> string option" where
  "getDominantCause accidents =
     (case getTopCauses accidents of
        None \<Rightarrow> None
      | Some causes \<Rightarrow>
          Some (case causes of [] \<Rightarrow> ''Unknown'' | c # _ \<Rightarrow> fst c))"

subsection \<open>Hour of day\<close>

text \<open>
  \<^verbatim>\<open>getHourlyDistribution\<close> and \<^verbatim>\<open>predictSafetyForHour\<close> carry the same
  statements for the hour of a record; they are \<open>parseHour\<close> here.
  \<^const>\<open>None\<close> is \<^verbatim>\<open>NaN\<close>, which stays \<^verbatim>\<open>NaN\<close> through \<^verbatim>\<open>hour += 12\<close> and is
  never equal to 12.
\<close>

definition parseHour :: "string \<Rightarrow> int option" where
  "parseHour t =
     (if stringIncludes t '':'' then
        let parts = split CHR '':'' t;
            hour = (case parts of [] \<Rightarrow> None | p # _ \<Rightarrow> parseInt p)
        in (case hour of
              None \<Rightarrow> None
            | Some h \<Rightarrow>
                if stringIncludes (toLowerCase t) ''pm'' \<and> h \<noteq> 12 then Some (h + 12)
                else if stringIncludes (toLowerCase t) ''am'' \<and> h = 12 then Some 0
                else Some h)
      else Some 0)"



definition predictSafetyForHour :: "int \<Rightarrow> Accident list \<Rightarrow> rat list option \<Rightarrow> SafetyLevel" where
  "predictSafetyForHour hour historicalData allScores =
     (let hourAccidents = filter (\<lambda>acc. parseHour (time acc) = Some hour) historicalData
      in calculateSafetyLevelFromAccidents hourAccidents allScores)"

subsection \<open>Recommendation lookup\<close>

text \<open>
  The array literals that \<^verbatim>\<open>getCivilianSuggestions\<close> and
  \<^verbatim>\<open>getGovernmentSuggestions\<close> return, named so that statements can refer to them.
\<close>

definition civilianWeather :: "string list" where
  "civilianWeather =
     [''Check tire tread and wiper blades before driving in rain'',
      ''Reduce speed by at least 30% and increase following distance'',
      ''Use fog lights in low visibility, not high beams'',
      ''Avoid sudden braking or sharp turns on wet roads'']"

definition civilianSpeed :: "string list" where
  "civilianSpeed =
     [''Be aware that this is a high-speed accident zone; adhere strictly to the posted speed limit'',
      ''Allow extra time for your journey to avoid the temptation to speed'',
      ''Be cautious of other vehicles making sudden maneuvers'',
      ''Maintain safe following distance to allow for sudden stops'']"

definition civilianAttention :: "string list" where
  "civilianAttention =
     [''Avoid all mobile phone use when approaching this area'',
      ''Be prepared for sudden stops and lane changes'',
      ''Before proceeding on a green light, quickly check for cross-traffic that may have run the red light'',
      ''Stay alert and avoid distractions like eating or adjusting radio'']"

definition civilianAlcohol :: "string list" where
  "civilianAlcohol =
     [''Never drive under the influence of alcohol or drugs'',
      ''Watch for erratic driving behavior from other vehicles'',
      ''Consider alternative transportation if you plan to consume alcohol'',
      ''Report suspected drunk drivers to authorities'']"

definition civilianPedestrian :: "string list" where
  "civilianPedestrian =
     [''Be extra vigilant for pedestrians, especially near crosswalks'',
      ''Slow down in areas with high foot traffic'',
      ''Never assume pedestrians will wait for you to pass'',
      ''Be especially careful during evening hours when visibility is reduced'']"

definition civilianOvertaking :: "string list" where
  "civilianOvertaking =
     [''Be cautious when overtaking; ensure clear visibility and safe distance'',
      ''Watch for aggressive drivers attempting risky overtaking maneuvers'',
      ''Use defensive driving techniques and maintain your lane'',
      ''Never engage with aggressive or reckless drivers'']"

definition civilianDefault :: "string list" where
  "civilianDefault =
     [''Drive defensively and stay alert at all times'',
      ''Maintain safe following distance from other vehicles'',
      ''Obey all traffic signals and road signs'',
      ''Be prepared for unexpected situations'']"

definition governmentWeather :: "string list" where
  "governmentWeather =
     [''Improve road infrastructure by clearing drainage systems to prevent waterlogging'',
      ''Repair potholes that become hazardous in rain'',
      ''Install high-visibility, reflective road markings and signage that perform well in fog and rain'',
      ''Consider installing weather-responsive traffic management systems'']"

definition governmentSpeed :: "string list" where
  "governmentSpeed =
     [''Install automated speed-enforcement cameras on this stretch'',
      ''Implement traffic calming measures like speed bumps near intersections or pedestrian zones'',
      ''Increase the frequency of traffic police patrols with speed guns'',
      ''Improve signage warning drivers of speed limits and accident history'']"

definition governmentAttention :: "string list" where
  "governmentAttention =
     [''Improve traffic signal visibility and timing at this intersection'',
      ''Install rumble strips on the approach to the intersection to alert drivers'',
      ''Consider creating a 'no-right-on-red' policy here if not already in place'',
      ''Deploy red light cameras to enforce traffic signal compliance'']"

definition governmentAlcohol :: "string list" where
  "governmentAlcohol =
     [''Increase sobriety checkpoints and breathalyzer testing in this area'',
      ''Launch targeted awareness campaigns about drunk driving consequences'',
      ''Improve public transportation options during peak nightlife hours'',
      ''Implement stricter penalties for DUI offenses in high-risk zones'']"

definition governmentPedestrian :: "string list" where
  "governmentPedestrian =
     [''Install or improve pedestrian crosswalks with clear markings'',
      ''Add pedestrian crossing signals with countdown timers'',
      ''Implement speed reduction zones near high pedestrian traffic areas'',
      ''Consider installing pedestrian barriers to prevent jaywalking'']"

definition governmentOvertaking :: "string list" where
  "governmentOvertaking =
     [''Install clear lane markings and no-overtaking zone signage'',
      ''Increase traffic police presence to deter reckless driving'',
      ''Consider median barriers to prevent dangerous overtaking'',
      ''Implement stricter penalties for reckless driving in this zone'']"

definition governmentDefault :: "string list" where
  "governmentDefault =
     [''Conduct comprehensive traffic safety audit of this area'',
      ''Improve road lighting and visibility'',
      ''Increase traffic police presence during peak hours'',
      ''Install warning signs about accident-prone zone'']"

definition getCivilianSuggestions :: "string \<Rightarrow> string list" where
  "getCivilianSuggestions dominantCause =
     (let cause = toLowerCase dominantCause
      in if stringIncludes cause ''weather'' \<or> stringIncludes cause ''rain''
            \<or> stringIncludes cause ''fog'' then civilianWeather
         else if stringIncludes cause ''speed'' \<or> stringIncludes cause ''overspeeding''
           then civilianSpeed
         else if stringIncludes cause ''inattention'' \<or> stringIncludes cause ''distract''
            \<or> stringIncludes cause ''red light'' \<or> stringIncludes cause ''signal''
           then civilianAttention
         else if stringIncludes cause ''alcohol'' \<or> stringIncludes cause ''drunk''
           then civilianAlcohol
         else if stringIncludes cause ''pedestrian'' \<or> stringIncludes cause ''jaywalking''
           then civilianPedestrian
         else if stringIncludes cause ''overtaking'' \<or> stringIncludes cause ''reckless''
           then civilianOvertaking
         else civilianDefault)"

definition getGovernmentSuggestions :: "string \<Rightarrow> string list" where
  "getGovernmentSuggestions dominantCause =
     (let cause = toLowerCase dominantCause
      in if stringIncludes cause ''weather'' \<or> stringIncludes cause ''rain''
            \<or> stringIncludes cause ''fog'' then governmentWeather
         else if stringIncludes cause ''speed'' \<or> stringIncludes cause ''overspeeding''
           then governmentSpeed
         else if stringIncludes cause ''inattention'' \<or> stringIncludes cause ''distract''
            \<or> stringIncludes cause ''red light'' \<or> stringIncludes cause ''signal''
           then governmentAttention
         else if stringIncludes cause ''alcohol'' \<or> stringIncludes cause ''drunk''
           then governmentAlcohol
         else if stringIncludes cause ''pedestrian'' \<or> stringIncludes cause ''jaywalking''
           then governmentPedestrian
         else if stringIncludes cause ''overtaking'' \<or> stringIncludes cause ''reckless''
           then governmentOvertaking
         else governmentDefault)"

text \<open>
  The lookup as the specification describes it: an ordered table of keyword
  categories, each with its two advisory lists (for authorities, for civilians),
  searched for the first category one of whose keywords occurs in the lowercased
  cause. The third category carries the keywords the code tests.
\<close>

definition keywordCategories :: "(string list \<times> string list \<times> string list) list" where
  "keywordCategories =
     [([''weather'', ''rain'', ''fog''], governmentWeather, civilianWeather),
      ([''speed'', ''overspeeding''], governmentSpeed, civilianSpeed),
      ([''inattention'', ''distract'', ''red light'', ''signal''], governmentAttention, civilianAttention),
      ([''alcohol'', ''drunk''], governmentAlcohol, civilianAlcohol),
      ([''pedestrian'', ''jaywalking''], governmentPedestrian, civilianPedestrian),
      ([''overtaking'', ''reckless''], governmentOvertaking, civilianOvertaking)]"

fun firstMatch ::
    "string \<Rightarrow> (string list \<times> string list \<times> string list) list \<Rightarrow> string list \<times> string list" where
  "firstMatch c [] = (governmentDefault, civilianDefault)"
| "firstMatch c (category # rest) =
     (if list_ex (stringIncludes c) (fst category) then snd category
      else firstMatch c rest)"

subsection \<open>Vocabulary of the statements\<close>

text \<open>The distinct elements of a list, in the order of their first occurrence.\<close>

definition firstSeen :: "'a list \<Rightarrow> 'a list" where
  "firstSeen xs = rev (remdups (rev xs))"

text \<open>
  The order in which \<^verbatim>\<open>Object.entries\<close> lists keys that were created in the order
  \<open>ks\<close>: \<open>objectEntries\<close>, told on the keys alone.
\<close>

definition ownPropertyKeys :: "string list \<Rightarrow> string list" where
  "ownPropertyKeys ks =
     sort_key arrayIndexValue (filter isArrayIndex ks) @ filter (\<lambda>k. \<not> isArrayIndex k) ks"

text \<open>The object that grouping by area builds, in closed form.\<close>

definition groupsOf :: "Accident list \<Rightarrow> Accident list jsObject" where
  "groupsOf xs = map (\<lambda>k. (k, filter (\<lambda>a. area a = k) xs)) (firstSeen (map area xs))"

text \<open>The object that the tally of causes builds, in closed form.\<close>

definition tallyOf :: "Accident list \<Rightarrow> int jsObject" where
  "tallyOf xs = map (\<lambda>c. (c, int (length (filter (\<lambda>a. causeOf a = c) xs)))) (firstSeen (map causeOf xs))"

subsection \<open>Example records\<close>

definition accidentOf ::
    "string \<Rightarrow> string \<Rightarrow> string \<Rightarrow> int option \<Rightarrow> string option \<Rightarrow> string option \<Rightarrow> Accident" where
  "accidentOf ident t a f s c =
     \<lparr>accidentId = ident, time = t, area = a, injuries = None, fatalities = f,
      severity = s, causePrimary = c\<rparr>"

definition dashboardExample :: "Accident list" where
  "dashboardExample =
     [accidentOf ''r1'' ''08:15'' ''Rohini'' (Some 6) (Some ''fatal'') (Some ''Overspeeding''),
      accidentOf ''r2'' ''21:40'' ''Dwarka'' (Some 10) (Some ''fatal'') (Some ''Drunk driving''),
      accidentOf ''r3'' ''10:05'' ''Rohini'' None (Some ''minor'') None]"

definition rankingExample :: "Accident list" where
  "rankingExample =
     [accidentOf ''r1'' ''08:15'' ''Rohini'' None None (Some ''A''),
      accidentOf ''r2'' ''09:15'' ''Rohini'' None None (Some ''B''),
      accidentOf ''r3'' ''10:15'' ''Rohini'' None None (Some ''A''),
      accidentOf ''r4'' ''11:15'' ''Rohini'' None None (Some ''C''),
      accidentOf ''r5'' ''12:15'' ''Rohini'' None None (Some ''B''),
      accidentOf ''r6'' ''13:15'' ''Rohini'' None None (Some ''A'')]"

definition groupingExample :: "Accident list" where
  "groupingExample =
     [accidentOf ''r1'' ''08:15'' ''Rohini'' None None None,
      accidentOf ''r2'' ''09:15'' ''10'' None None None,
      accidentOf ''r3'' ''10:15'' ''Dwarka'' None None None,
      accidentOf ''r4'' ''11:15'' ''2'' None None None,
      accidentOf ''r5'' ''12:15'' ''Rohini'' None None None]"

definition causesExample :: "Accident list" where
  "causesExample =
     [accidentOf ''r1'' ''08:15'' ''Rohini'' None None (Some ''Speeding''),
      accidentOf ''r2'' ''09:15'' ''Rohini'' None None None,
      accidentOf ''r3'' ''10:15'' ''Rohini'' None None (Some ''''),
      accidentOf ''r4'' ''11:15'' ''Rohini'' None None (Some ''Signal''),
      accidentOf ''r5'' ''12:15'' ''Rohini'' None None (Some ''Fog''),
      accidentOf ''r6'' ''13:15'' ''Rohini'' None None (Some ''Speeding''),
      accidentOf ''r7'' ''14:15'' ''Rohini'' None None None,
      accidentOf ''r8'' ''15:15'' ''Rohini'' None None (Some ''Rain''),
      accidentOf ''r9'' ''16:15'' ''Rohini'' None None (Some ''7'')]"

section \<open>Properties\<close>

subsection \<open>Severity score\<close>

lemma fold_scoreStep:
  "fold scoreStep accidents acc =
     acc + 10 * (\<Sum>a\<leftarrow>accidents. case fatalities a of None \<Rightarrow> 0 | Some n \<Rightarrow> n)
     + 5 * int (length (filter (\<lambda>a. toLowerCase (case severity a of None \<Rightarrow> [] | Some s \<Rightarrow> s)
                                    \<in> {''severe'', ''fatal''}) accidents))
     + 2 * int (length (filter (\<lambda>a. toLowerCase (case severity a of None \<Rightarrow> [] | Some s \<Rightarrow> s)
                                    = ''moderate'') accidents))"
proof (induction accidents arbitrary: acc)
  case Nil
  show ?case by simp
next
  case (Cons a accidents)
  show ?case
    unfolding fold_simps Cons.IH
    by (simp add: scoreStep_def Let_def split: option.splits)
qed

text \<open>
  Claim C1. For every list of records the severity score is ten times the sum of
  the fatalities (an absent count is 0), plus 5 for each record whose severity
  lowercases to "severe" or "fatal", plus 2 for each record whose severity
  lowercases to "moderate" (an absent severity is the empty string, which is
  neither). The three terms are independent, so a fatal record with fatalities
  adds to the first and to the second, and a record with an absent or unknown
  severity adds to the first only. The empty list scores 0.
\<close>

theorem calculateSeverityScore_formula:
  "calculateSeverityScore accidents =
     10 * (\<Sum>a\<leftarrow>accidents. case fatalities a of None \<Rightarrow> 0 | Some n \<Rightarrow> n)
     + 5 * int (length (filter (\<lambda>a. toLowerCase (case severity a of None \<Rightarrow> [] | Some s \<Rightarrow> s)
                                    \<in> {''severe'', ''fatal''}) accidents))
     + 2 * int (length (filter (\<lambda>a. toLowerCase (case severity a of None \<Rightarrow> [] | Some s \<Rightarrow> s)
                                    = ''moderate'') accidents))
   \<and> calculateSeverityScore [] = 0"
  by (simp add: calculateSeverityScore_def fold_scoreStep)

subsection \<open>Percentiles\<close>

lemma percentile_index_bounds:
  fixes p :: rat
  assumes "scores \<noteq> []" "0 \<le> p" "p \<le> 100"
    and idx: "index = p / 100 * (of_nat (length (scores::rat list)) - 1)"
  shows "0 \<le> \<lfloor>index\<rfloor>" and "\<lceil>index\<rceil> < int (length scores)" and "\<lfloor>index\<rfloor> \<le> \<lceil>index\<rceil>"
proof -
  have n: "1 \<le> length scores" using assms(1) by (cases scores) auto
  have q: "0 \<le> p / 100" "p / 100 \<le> 1" using assms(2,3) by auto
  have m: "(0::rat) \<le> of_nat (length scores) - 1" using n by simp
  have i0: "0 \<le> index" unfolding idx using q(1) m by simp
  have "index \<le> 1 * (of_nat (length scores) - 1)"
    unfolding idx using q(2) m by (rule mult_right_mono)
  then have i1: "index \<le> of_int (int (length scores) - 1)" by simp
  show "0 \<le> \<lfloor>index\<rfloor>" using i0 by simp
  have "\<lceil>index\<rceil> \<le> int (length scores) - 1" using i1 by (simp only: ceiling_le_iff)
  then show "\<lceil>index\<rceil> < int (length scores)" by simp
  show "\<lfloor>index\<rfloor> \<le> \<lceil>index\<rceil>" by (rule floor_le_ceiling)
qed

lemma arrayGet_in_range:
  "0 \<le> i \<Longrightarrow> i < int (length xs) \<Longrightarrow> arrayGet xs i = Some (xs ! nat i)"
  by (simp add: arrayGet_def)

lemma calculatePercentile_general:
  assumes "scores \<noteq> []"
    and idx: "index = p / 100 * (of_nat (length scores) - 1)"
  shows "calculatePercentile scores p =
           (if index = of_int \<lfloor>index\<rfloor> then arrayGet (sort scores) \<lfloor>index\<rfloor>
            else (case (arrayGet (sort scores) \<lfloor>index\<rfloor>, arrayGet (sort scores) \<lceil>index\<rceil>) of
                    (Some l, Some u) \<Rightarrow> Some (l * (1 - frac index) + u * frac index)
                  | _ \<Rightarrow> None))"
proof -
  have eq: "(\<lfloor>index\<rfloor> = \<lceil>index\<rceil>) = (index = of_int \<lfloor>index\<rfloor>)"
  proof
    assume h: "\<lfloor>index\<rfloor> = \<lceil>index\<rceil>"
    have "index \<le> of_int \<lceil>index\<rceil>" by (rule le_of_int_ceiling)
    moreover have "of_int \<lfloor>index\<rfloor> \<le> index" by (rule of_int_floor_le)
    ultimately have "index \<le> of_int \<lfloor>index\<rfloor>" "of_int \<lfloor>index\<rfloor> \<le> index"
      by (simp_all only: h)
    then show "index = of_int \<lfloor>index\<rfloor>" by (rule antisym)
  next
    assume h: "index = of_int \<lfloor>index\<rfloor>"
    have "\<lceil>of_int \<lfloor>index\<rfloor> :: rat\<rceil> = \<lfloor>index\<rfloor>" by (rule ceiling_of_int)
    then show "\<lfloor>index\<rfloor> = \<lceil>index\<rceil>" using h by simp
  qed
  have ne: "(length scores = 0) = False" using assms(1) by simp
  have "calculatePercentile scores p =
           (if \<lfloor>index\<rfloor> = \<lceil>index\<rceil> then arrayGet (sort scores) \<lfloor>index\<rfloor>
            else (case (arrayGet (sort scores) \<lfloor>index\<rfloor>, arrayGet (sort scores) \<lceil>index\<rceil>) of
                    (Some l, Some u) \<Rightarrow> Some (l * (1 - (index - of_int \<lfloor>index\<rfloor>)) + u * (index - of_int \<lfloor>index\<rfloor>))
                  | _ \<Rightarrow> None))"
    unfolding calculatePercentile_def Let_def length_sort idx
    by (simp only: ne if_False)
  then show ?thesis
    by (simp only: eq frac_def)
qed

lemma calculatePercentile_in_range:
  assumes "scores \<noteq> []" "0 \<le> p" "p \<le> 100"
    and idx: "index = p / 100 * (of_nat (length scores) - 1)"
  shows "calculatePercentile scores p =
           (if index = of_int \<lfloor>index\<rfloor> then Some (sort scores ! nat \<lfloor>index\<rfloor>)
            else Some (sort scores ! nat \<lfloor>index\<rfloor> * (1 - frac index)
                       + sort scores ! nat \<lceil>index\<rceil> * frac index))"
proof -
  note b = percentile_index_bounds[OF assms]
  have l2: "\<lfloor>index\<rfloor> < int (length (sort scores))"
    unfolding length_sort using b(2,3) by linarith
  have u1: "0 \<le> \<lceil>index\<rceil>" using b(1,3) by linarith
  have u2: "\<lceil>index\<rceil> < int (length (sort scores))"
    unfolding length_sort using b(2) by linarith
  have lo: "arrayGet (sort scores) \<lfloor>index\<rfloor> = Some (sort scores ! nat \<lfloor>index\<rfloor>)"
    by (rule arrayGet_in_range[OF b(1) l2])
  have hi: "arrayGet (sort scores) \<lceil>index\<rceil> = Some (sort scores ! nat \<lceil>index\<rceil>)"
    by (rule arrayGet_in_range[OF u1 u2])
  show ?thesis
    unfolding calculatePercentile_general[OF assms(1) idx] lo hi by simp
qed

lemma convex_le:
  fixes l u w M :: rat
  assumes "l \<le> M" "u \<le> M" "0 \<le> w" "w \<le> 1"
  shows "l * (1 - w) + u * w \<le> M"
proof -
  have "l * (1 - w) \<le> M * (1 - w)" using assms(1,4) by (intro mult_right_mono) simp_all
  moreover have "u * w \<le> M * w" using assms(2,3) by (intro mult_right_mono) simp_all
  ultimately have "l * (1 - w) + u * w \<le> M * (1 - w) + M * w" by (rule add_mono)
  also have "\<dots> = M" by (simp add: algebra_simps)
  finally show ?thesis .
qed

lemma calculatePercentile_le_bound:
  assumes ne: "scores \<noteq> []" and p: "0 \<le> p" "p \<le> 100"
    and bound: "\<forall>s\<in>set scores. s \<le> M"
  shows "\<exists>v. calculatePercentile scores p = Some v \<and> v \<le> M"
proof -
  define index where "index = p / 100 * (of_nat (length scores) - 1)"
  note b = percentile_index_bounds[OF ne p index_def]
  have nth_le: "sort scores ! i \<le> M" if "i < length scores" for i
  proof -
    have "sort scores ! i \<in> set (sort scores)" using that by (intro nth_mem) simp
    then show ?thesis using bound by simp
  qed
  have lo: "sort scores ! nat \<lfloor>index\<rfloor> \<le> M" using b by (intro nth_le) linarith
  have hi: "sort scores ! nat \<lceil>index\<rceil> \<le> M" using b by (intro nth_le) linarith
  have w: "0 \<le> frac index" "frac index \<le> 1"
    using frac_lt_1[of index] by (simp_all add: less_imp_le)
  show ?thesis
    unfolding calculatePercentile_in_range[OF ne p index_def]
    using lo hi convex_le[OF lo hi w] by simp
qed

subsection \<open>Double precision\<close>

lemma pow2_add1: "(2::rat) powi (k + 1) = 2 * 2 powi k"
  by (simp add: power_int_add)

lemma pow2_sub1: "(2::rat) powi (k - 1) = 2 powi k / 2"
  by (simp add: power_int_diff)

lemma binadeUp_bounds: "1 \<le> x \<Longrightarrow> 2 powi binadeUp x \<le> x \<and> x < 2 powi (binadeUp x + 1)"
proof (induction x rule: binadeUp.induct)
  case (1 x)
  show ?case
  proof (cases "x < 2")
    case True
    then show ?thesis using "1.prems" by (simp add: binadeUp.simps[of x])
  next
    case False
    then have h: "1 \<le> x / 2" by simp
    define P where "P = (2::rat) powi binadeUp (x / 2)"
    have ih: "P \<le> x / 2 \<and> x / 2 < 2 * P"
      using "1.IH"[OF False h] unfolding P_def pow2_add1 .
    have e: "binadeUp x = binadeUp (x / 2) + 1" using False by (simp add: binadeUp.simps[of x])
    have "2 * P \<le> x \<and> x < 2 * (2 * P)" using ih by auto
    then show ?thesis unfolding e pow2_add1 P_def .
  qed
qed

lemma binadeDown_bounds:
  "0 < x \<Longrightarrow> x < 1 \<Longrightarrow> 2 powi binadeDown x \<le> x \<and> x < 2 powi (binadeDown x + 1)"
proof (induction x rule: binadeDown.induct)
  case (1 x)
  have e: "binadeDown x = binadeDown (2 * x) - 1"
    using "1.prems" by (simp add: binadeDown.simps[of x])
  have s: "binadeDown (2 * x) - 1 + 1 = binadeDown (2 * x)" by simp
  define P where "P = (2::rat) powi binadeDown (2 * x)"
  have "P \<le> 2 * x \<and> 2 * x < 2 * P"
  proof (cases "1 \<le> 2 * x")
    case True
    then have "binadeDown (2 * x) = 0" by (simp add: binadeDown.simps[of "2 * x"])
    then have "P = 1" by (simp add: P_def)
    then show ?thesis using True "1.prems" by simp
  next
    case False
    have c: "\<not> (x \<le> 0 \<or> 1 \<le> x)" using "1.prems" by simp
    have p: "0 < 2 * x" "2 * x < 1" using "1.prems" False by simp_all
    show ?thesis using "1.IH"[OF c p] unfolding P_def pow2_add1 .
  qed
  then have "P / 2 \<le> x \<and> x < P" by auto
  then show ?case unfolding e s pow2_sub1 P_def .
qed

lemma binade_bounds:
  assumes "x \<noteq> 0"
  shows "2 powi binade x \<le> \<bar>x\<bar>" and "\<bar>x\<bar> < 2 powi (binade x + 1)"
  using assms binadeUp_bounds[of "\<bar>x\<bar>"] binadeDown_bounds[of "\<bar>x\<bar>"]
  by (auto simp: binade_def)

lemma roundHalfEven_int: "roundHalfEven (of_int j) = j"
  by (simp add: roundHalfEven_def)

lemma binade_zero: "binade 0 = 0"
  by (simp add: binade_def binadeDown.simps[of 0])

lemma binade_less:
  assumes "\<bar>x\<bar> < 2 powi k" and "x \<noteq> 0"
  shows "binade x < k"
proof (rule ccontr)
  assume "\<not> binade x < k"
  then have "k \<le> binade x" by simp
  then have "(2::rat) powi k \<le> 2 powi binade x" by (rule power_int_increasing) simp
  moreover have "2 powi binade x \<le> \<bar>x\<bar>" by (rule binade_bounds(1)[OF assms(2)])
  ultimately show False using assms(1) by simp
qed

lemma roundDouble_quarter:
  assumes "\<bar>m\<bar> < 2 ^ 53"
  shows "roundDouble (of_int m / 4) = Some (of_int m / 4)"
proof -
  define x :: rat where "x = of_int m / 4"
  have "\<bar>of_int m :: rat\<bar> < 2 ^ 53" using assms by (metis of_int_abs of_int_less_numeral_power_cancel_iff)
  then have ax: "\<bar>x\<bar> < 2 powi 51" by (simp add: x_def)
  define g where "g = max (binade x - 52) (- 1074)"
  have "binade x < 51"
  proof (cases "x = 0")
    case True
    then show ?thesis by (simp add: binade_zero)
  next
    case False
    then show ?thesis using ax by (intro binade_less)
  qed
  then have g: "g \<le> - 2" by (simp add: g_def)
  define n where "n = nat (- g - 2)"
  have gn: "- g = 2 + int n" using g by (simp add: n_def)
  have "(2::rat) powi (- g) = 2 powi 2 * 2 powi int n"
    unfolding gn by (rule power_int_add) simp
  then have pg: "(2::rat) powi (- g) = 4 * 2 ^ n" by simp
  have "x / 2 powi g = x * 2 powi (- g)" by (simp add: power_int_minus field_simps)
  also have "\<dots> = of_int m * 2 ^ n" unfolding pg x_def by simp
  also have "\<dots> = of_int (m * 2 ^ n)" by simp
  finally have xj: "x / 2 powi g = of_int (m * 2 ^ n)" .
  have nz: "(2::rat) powi g \<noteq> 0" by simp
  have "rat_of_int (roundHalfEven (x / 2 powi g)) = x / 2 powi g"
    unfolding xj roundHalfEven_int ..
  then have y: "of_int (roundHalfEven (x / 2 powi g)) * 2 powi g = x"
    using nz by simp
  have big: "binade x < 1024" using \<open>binade x < 51\<close> by simp
  have "roundDouble x =
          (if binade (rat_of_int (roundHalfEven (x / 2 powi g)) * 2 powi g) < 1024
           then Some (rat_of_int (roundHalfEven (x / 2 powi g)) * 2 powi g) else None)"
    unfolding roundDouble_def Let_def g_def ..
  then have "roundDouble x = Some x"
    unfolding y using big by (simp only: if_True)
  then show ?thesis unfolding x_def .
qed

lemma roundDouble_scaled:
  assumes k: "\<bar>k\<bar> < 2 ^ 50" and j: "0 \<le> j" "j \<le> 4"
  shows "roundDouble (of_int k * (of_int j / 4)) = Some (of_int k * (of_int j / 4))"
proof -
  have "\<bar>k * j\<bar> = \<bar>k\<bar> * j" using j(1) by (simp add: abs_mult)
  also have "\<dots> \<le> \<bar>k\<bar> * 4" using j(2) by (intro mult_left_mono) simp_all
  also have "\<dots> < 2 ^ 53" using k by simp
  finally have "\<bar>k * j\<bar> < 2 ^ 53" .
  then have "roundDouble (of_int (k * j) / 4) = Some (of_int (k * j) / 4)"
    by (rule roundDouble_quarter)
  then show ?thesis by simp
qed

lemma roundDouble_sum:
  assumes k: "\<bar>k\<bar> < 2 ^ 50" "\<bar>k'\<bar> < 2 ^ 50" and j: "0 \<le> j" "j \<le> 4"
  shows "roundDouble (of_int k * (of_int (4 - j) / 4) + of_int k' * (of_int j / 4))
           = Some (of_int k * (of_int (4 - j) / 4) + of_int k' * (of_int j / 4))"
proof -
  have a: "\<bar>k * (4 - j)\<bar> = \<bar>k\<bar> * (4 - j)" using j(2) by (simp add: abs_mult)
  have b: "\<bar>k' * j\<bar> = \<bar>k'\<bar> * j" using j(1) by (simp add: abs_mult)
  have "\<bar>k\<bar> * (4 - j) \<le> (2 ^ 50 - 1) * (4 - j)" using k(1) j(2) by (intro mult_right_mono) simp_all
  moreover have "\<bar>k'\<bar> * j \<le> (2 ^ 50 - 1) * j" using k(2) j(1) by (intro mult_right_mono) simp_all
  ultimately have "\<bar>k\<bar> * (4 - j) + \<bar>k'\<bar> * j \<le> (2 ^ 50 - 1) * 4"
    by (simp add: algebra_simps)
  then have "\<bar>k * (4 - j) + k' * j\<bar> < 2 ^ 53"
    using a b abs_triangle_ineq[of "k * (4 - j)" "k' * j"] by simp
  then have "roundDouble (of_int (k * (4 - j) + k' * j) / 4) = Some (of_int (k * (4 - j) + k' * j) / 4)"
    by (rule roundDouble_quarter)
  moreover have "rat_of_int (k * (4 - j) + k' * j) / 4
      = of_int k * (of_int (4 - j) / 4) + of_int k' * (of_int j / 4)"
    by (simp add: field_simps)
  ultimately show ?thesis by (simp only:)
qed

lemma roundDouble_dyadic:
  assumes m: "\<bar>m\<bar> < 2 ^ 53" and n: "n \<le> 1074"
  shows "roundDouble (of_int m / 2 ^ n) = Some (of_int m / 2 ^ n)"
proof (cases "m = 0")
  case True
  have "roundHalfEven 0 = 0" using roundHalfEven_int[of 0] by simp
  then have "roundDouble 0 = Some 0" by (simp add: roundDouble_def binade_zero)
  then show ?thesis using True by simp
next
  case False
  define x :: rat where "x = of_int m / 2 ^ n"
  have x0: "x \<noteq> 0" using False by (simp add: x_def)
  have "\<bar>of_int m :: rat\<bar> < 2 ^ 53"
    using m by (metis of_int_abs of_int_less_numeral_power_cancel_iff)
  then have "\<bar>x\<bar> < 2 ^ 53 / 2 ^ n"
    by (simp add: x_def divide_strict_right_mono)
  also have "(2::rat) ^ 53 / 2 ^ n = 2 powi (53 - int n)"
    by (simp add: power_int_diff)
  finally have ax: "\<bar>x\<bar> < 2 powi (53 - int n)" .
  define g where "g = max (binade x - 52) (- 1074)"
  have bx: "binade x < 53 - int n" using ax x0 by (rule binade_less)
  then have g: "g \<le> - int n" using n by (simp add: g_def)
  define k where "k = nat (- g - int n)"
  have gn: "- g = int n + int k" using g by (simp add: k_def)
  have "(2::rat) powi (- g) = 2 powi int n * 2 powi int k"
    unfolding gn by (rule power_int_add) simp
  then have pg: "(2::rat) powi (- g) = 2 ^ n * 2 ^ k" by simp
  have "x / 2 powi g = x * 2 powi (- g)" by (simp add: power_int_minus field_simps)
  also have "\<dots> = of_int m * 2 ^ k" unfolding pg x_def by simp
  also have "\<dots> = of_int (m * 2 ^ k)" by simp
  finally have xj: "x / 2 powi g = of_int (m * 2 ^ k)" .
  have nz: "(2::rat) powi g \<noteq> 0" by simp
  have "rat_of_int (roundHalfEven (x / 2 powi g)) = x / 2 powi g"
    unfolding xj roundHalfEven_int ..
  then have y: "of_int (roundHalfEven (x / 2 powi g)) * 2 powi g = x"
    using nz by simp
  have big: "binade x < 1024" using bx by simp
  have "roundDouble x =
          (if binade (rat_of_int (roundHalfEven (x / 2 powi g)) * 2 powi g) < 1024
           then Some (rat_of_int (roundHalfEven (x / 2 powi g)) * 2 powi g) else None)"
    unfolding roundDouble_def Let_def g_def ..
  then have "roundDouble x = Some x"
    unfolding y using big by (simp only: if_True)
  then show ?thesis unfolding x_def .
qed

lemma calculatePercentileDouble_steps:
  assumes "scores \<noteq> []"
    and "roundDouble (percentile / 100) = Some fraction"
    and "roundDouble (fraction * (of_nat (length (sort scores)) - 1)) = Some index"
    and "\<lfloor>index\<rfloor> \<noteq> \<lceil>index\<rceil>"
    and "roundDouble (index - of_int \<lfloor>index\<rfloor>) = Some weight"
    and "arrayGet (sort scores) \<lfloor>index\<rfloor> = Some l"
    and "arrayGet (sort scores) \<lceil>index\<rceil> = Some u"
    and "roundDouble (1 - weight) = Some rest"
    and "roundDouble (l * rest) = Some a"
    and "roundDouble (u * weight) = Some b"
  shows "calculatePercentileDouble scores percentile = roundDouble (a + b)"
  using assms by (simp add: calculatePercentileDouble_def Let_def)

lemma arrayGet_mem: "arrayGet xs i = Some v \<Longrightarrow> v \<in> set xs"
  by (auto simp: arrayGet_def split: if_splits)

lemma calculatePercentileDouble_exact:
  assumes ne: "scores \<noteq> []" and p: "p \<in> {0, 25, 50, 75, 100}"
    and ints: "\<forall>s\<in>set scores. \<exists>k. s = of_int k \<and> \<bar>k\<bar> < 2 ^ 50"
    and len: "length scores \<le> 2 ^ 50"
  shows "calculatePercentileDouble scores p = calculatePercentile scores p"
proof -
  obtain m :: int where m: "p / 100 = of_int m / 4" "0 \<le> m" "m \<le> 4"
  proof -
    have "p = 0 \<or> p = 25 \<or> p = 50 \<or> p = 75 \<or> p = 100" using p by simp
    then have "\<exists>m::int. p / 100 = of_int m / 4 \<and> 0 \<le> m \<and> m \<le> 4"
      by (elim disjE) (rule exI[of _ 0], simp, rule exI[of _ 1], simp, rule exI[of _ 2], simp,
          rule exI[of _ 3], simp, rule exI[of _ 4], simp)
    then show ?thesis using that by blast
  qed
  define N :: int where "N = int (length scores) - 1"
  have N: "0 \<le> N" "N < 2 ^ 50"
    using ne len by (simp_all add: N_def Suc_le_eq)
  have lenN0: "rat_of_nat (length scores) - 1 = of_int N" by (simp add: N_def)
  have lenN: "rat_of_nat (length (sort scores)) - 1 = of_int N" by (simp add: N_def)
  have r1: "roundDouble (p / 100) = Some (of_int m / 4)"
    unfolding m(1) using m(2,3) by (intro roundDouble_quarter) simp
  define index :: rat where "index = p / 100 * (of_nat (length (sort scores)) - 1)"
  have index: "index = of_int N * (of_int m / 4)" by (simp add: index_def m(1) lenN0)
  have "\<bar>N\<bar> < 2 ^ 50" using N by simp
  then have r2: "roundDouble (of_int m / 4 * (of_nat (length (sort scores)) - 1)) = Some index"
    unfolding lenN index using m(2,3) roundDouble_scaled[of N m] by (simp add: mult.commute)
  define j :: int where "j = N * m - 4 * \<lfloor>index\<rfloor>"
  have fj: "index - of_int \<lfloor>index\<rfloor> = of_int j / 4" by (simp add: j_def index field_simps)
  have "0 \<le> index - of_int \<lfloor>index\<rfloor>" "index - of_int \<lfloor>index\<rfloor> < 1" by linarith+
  then have "0 \<le> rat_of_int j" "rat_of_int j < 4" unfolding fj by simp_all
  then have j: "0 \<le> j" "j < 4" by linarith+
  have r3: "roundDouble (index - of_int \<lfloor>index\<rfloor>) = Some (of_int j / 4)"
    unfolding fj using j by (intro roundDouble_quarter) simp
  have r4: "roundDouble (1 - of_int j / 4) = Some (of_int (4 - j) / 4)"
  proof -
    have "roundDouble (of_int (4 - j) / 4) = Some (of_int (4 - j) / 4)"
      using j by (intro roundDouble_quarter) simp
    moreover have "1 - rat_of_int j / 4 = of_int (4 - j) / 4" by (simp add: field_simps)
    ultimately show ?thesis by (simp only:)
  qed
  have interp: "(case roundDouble (1 - of_int j / 4) of
            None \<Rightarrow> None
          | Some rest \<Rightarrow>
              (case (roundDouble (l * rest), roundDouble (u * (of_int j / 4))) of
                 (Some a, Some b) \<Rightarrow> roundDouble (a + b)
               | _ \<Rightarrow> None))
        = Some (l * (1 - (index - of_int \<lfloor>index\<rfloor>)) + u * (index - of_int \<lfloor>index\<rfloor>))"
    if l: "arrayGet (sort scores) \<lfloor>index\<rfloor> = Some l"
      and u: "arrayGet (sort scores) \<lceil>index\<rceil> = Some u" for l u
  proof -
    have "l \<in> set scores" "u \<in> set scores"
      using arrayGet_mem[OF l] arrayGet_mem[OF u] by simp_all
    then obtain kl ku where kl: "l = of_int kl" "\<bar>kl\<bar> < 2 ^ 50"
      and ku: "u = of_int ku" "\<bar>ku\<bar> < 2 ^ 50"
      using ints by blast
    have j4: "0 \<le> 4 - j" "4 - j \<le> 4" using j by simp_all
    have a: "roundDouble (l * (of_int (4 - j) / 4)) = Some (l * (of_int (4 - j) / 4))"
      unfolding kl(1) by (rule roundDouble_scaled[OF kl(2) j4])
    have jj: "0 \<le> j" "j \<le> 4" using j by simp_all
    have b: "roundDouble (u * (of_int j / 4)) = Some (u * (of_int j / 4))"
      unfolding ku(1) by (rule roundDouble_scaled[OF ku(2) jj])
    have c: "roundDouble (l * (of_int (4 - j) / 4) + u * (of_int j / 4))
              = Some (l * (of_int (4 - j) / 4) + u * (of_int j / 4))"
      unfolding kl(1) ku(1) by (rule roundDouble_sum[OF kl(2) ku(2) jj])
    have d: "1 - rat_of_int j / 4 = of_int (4 - j) / 4"
      by (simp add: field_simps)
    show ?thesis
      unfolding fj r4 by (simp only: option.case prod.case a b c d)
  qed
  have ne0: "(length scores = 0) = False" using ne by simp
  have dbl: "calculatePercentileDouble scores p =
      (if \<lfloor>index\<rfloor> = \<lceil>index\<rceil> then arrayGet (sort scores) \<lfloor>index\<rfloor>
       else (case (arrayGet (sort scores) \<lfloor>index\<rfloor>, arrayGet (sort scores) \<lceil>index\<rceil>) of
               (Some l, Some u) \<Rightarrow>
                 (case roundDouble (1 - of_int j / 4) of
                    None \<Rightarrow> None
                  | Some rest \<Rightarrow>
                      (case (roundDouble (l * rest), roundDouble (u * (of_int j / 4))) of
                         (Some a, Some b) \<Rightarrow> roundDouble (a + b)
                       | _ \<Rightarrow> None))
             | _ \<Rightarrow> None))"
    unfolding calculatePercentileDouble_def Let_def
    by (simp only: ne0 if_False r1 option.case r2 r3)
  have ex: "calculatePercentile scores p =
      (if \<lfloor>index\<rfloor> = \<lceil>index\<rceil> then arrayGet (sort scores) \<lfloor>index\<rfloor>
       else (case (arrayGet (sort scores) \<lfloor>index\<rfloor>, arrayGet (sort scores) \<lceil>index\<rceil>) of
               (Some l, Some u) \<Rightarrow>
                 Some (l * (1 - (index - of_int \<lfloor>index\<rfloor>)) + u * (index - of_int \<lfloor>index\<rfloor>))
             | _ \<Rightarrow> None))"
    unfolding calculatePercentile_def Let_def index_def
    by (simp only: ne0 if_False)
  show ?thesis
    unfolding dbl ex using interp
    by (auto split: option.splits)
qed

text \<open>
  Claim C3, as amended. For every non-empty list of at most \<open>2 ^ 50\<close> integer
  scores below \<open>2 ^ 50\<close> in magnitude and for \<open>p\<close> one of 0, 25, 50, 75 and 100, no
  operation of \<open>calculatePercentile\<close> rounds: with the scores sorted ascending and
  \<open>index = p / 100 * (n - 1)\<close>, both \<open>floor index\<close> and \<open>ceiling index\<close> lie inside
  the array, and the result is the element at the index when the index is
  integral and otherwise the linear interpolation of the elements at the floor
  and at the ceiling of the index, weighted by the fractional part. The
  percentile of \<open>[10, 20, 30, 40]\<close> at 25 is 17.5, that of \<open>[5]\<close> at 50 is 5, and the
  empty list gives 0 at every \<open>p\<close>.
\<close>

theorem calculatePercentile_exact_at_quarters:
  assumes "scores \<noteq> []"
    and "p \<in> {0, 25, 50, 75, 100}"
    and "\<forall>s\<in>set scores. \<exists>k. s = of_int k \<and> \<bar>k\<bar> < 2 ^ 50"
    and "length scores \<le> 2 ^ 50"
    and "index = p / 100 * (of_nat (length scores) - 1)"
  shows "sorted (sort scores) \<and> length (sort scores) = length scores
         \<and> 0 \<le> \<lfloor>index\<rfloor> \<and> \<lceil>index\<rceil> < int (length scores)
         \<and> calculatePercentileDouble scores p =
             (if index = of_int \<lfloor>index\<rfloor> then Some (sort scores ! nat \<lfloor>index\<rfloor>)
              else Some (sort scores ! nat \<lfloor>index\<rfloor> * (1 - frac index)
                         + sort scores ! nat \<lceil>index\<rceil> * frac index))
         \<and> calculatePercentileDouble [10, 20, 30, 40] 25 = Some (35 / 2)
         \<and> calculatePercentileDouble [5] 50 = Some 5
         \<and> (\<forall>q. calculatePercentileDouble [] q = Some 0)"
proof -
  have r: "0 \<le> p" "p \<le> 100" using assms(2) by auto
  have ex1: "calculatePercentileDouble [10, 20, 30, 40] 25 = Some (35 / 2)"
    by code_simp
  have ex2: "calculatePercentileDouble [5] 50 = Some 5"
    by code_simp
  have ex3: "\<forall>q. calculatePercentileDouble [] q = Some 0"
    by (simp add: calculatePercentileDouble_def)
  have b: "0 \<le> \<lfloor>index\<rfloor>" "\<lceil>index\<rceil> < int (length scores)"
    using percentile_index_bounds(1,2)[OF assms(1) r assms(5)] .
  have "calculatePercentileDouble scores p = calculatePercentile scores p"
    by (rule calculatePercentileDouble_exact[OF assms(1-4)])
  also have "\<dots> = (if index = of_int \<lfloor>index\<rfloor> then Some (sort scores ! nat \<lfloor>index\<rfloor>)
              else Some (sort scores ! nat \<lfloor>index\<rfloor> * (1 - frac index)
                         + sort scores ! nat \<lceil>index\<rceil> * frac index))"
    by (rule calculatePercentile_in_range[OF assms(1) r assms(5)])
  finally show ?thesis using b ex1 ex2 ex3 by simp
qed

theorem calculatePercentile_exact_at_quarters_witness:
  "calculatePercentileDouble [40, 10, 30, 20] 75 = Some (65 / 2)
   \<and> calculatePercentileDouble [40, 10, 30, 20] 100 = Some 40"
proof -
  have ne: "[40, 10, 30, 20] \<noteq> ([]::rat list)" by simp
  have p75: "(75::rat) \<in> {0, 25, 50, 75, 100}" and p100: "(100::rat) \<in> {0, 25, 50, 75, 100}"
    by simp_all
  have ints: "\<forall>s\<in>set [40, 10, 30, 20 :: rat]. \<exists>k. s = of_int k \<and> \<bar>k\<bar> < 2 ^ 50"
  proof -
    have "\<exists>k. (40::rat) = of_int k \<and> \<bar>k\<bar> < 2 ^ 50" by (rule exI[of _ 40]) simp
    moreover have "\<exists>k. (10::rat) = of_int k \<and> \<bar>k\<bar> < 2 ^ 50" by (rule exI[of _ 10]) simp
    moreover have "\<exists>k. (30::rat) = of_int k \<and> \<bar>k\<bar> < 2 ^ 50" by (rule exI[of _ 30]) simp
    moreover have "\<exists>k. (20::rat) = of_int k \<and> \<bar>k\<bar> < 2 ^ 50" by (rule exI[of _ 20]) simp
    ultimately show ?thesis by simp
  qed
  have len: "length [40, 10, 30, 20 :: rat] \<le> 2 ^ 50" by simp
  have s: "sort [40, 10, 30, 20 :: rat] = [10, 20, 30, 40]" by simp
  have i75: "(9 / 4 :: rat) = 75 / 100 * (of_nat (length [40, 10, 30, 20 :: rat]) - 1)" by simp
  have i100: "(3 :: rat) = 100 / 100 * (of_nat (length [40, 10, 30, 20 :: rat]) - 1)" by simp
  have f: "\<lfloor>9 / 4 :: rat\<rfloor> = 2" "\<lceil>9 / 4 :: rat\<rceil> = 3" "frac (9 / 4 :: rat) = 1 / 4"
    by (code_simp, code_simp, simp add: frac_def, code_simp)
  have "calculatePercentileDouble [40, 10, 30, 20] 75 = Some (65 / 2)"
    using calculatePercentile_exact_at_quarters[OF ne p75 ints len i75] by (simp add: s f)
  moreover have "calculatePercentileDouble [40, 10, 30, 20] 100 = Some 40"
    using calculatePercentile_exact_at_quarters[OF ne p100 ints len i100] by (simp add: s)
  ultimately show ?thesis by simp
qed

text \<open>
  Against the claim as written, which is for every \<open>p\<close>. At \<open>p = 60\<close> over
  \<open>[10, 20, 30, 40]\<close> the index is 9/5 and the interpolation between 20 and 30 is
  28, but the rounded operations give 27.999999999999996. At
  \<open>p = 28\<close> over the 26 scores 0, 100, ..., 2500 the index is the integer 7 and
  the element there is 700, but the index is computed as 7.000000000000001, the
  function interpolates and gives 700.0000000000001.
\<close>

theorem calculatePercentile_rounding_counterexample:
  "(60 :: rat) / 100 * (of_nat (length [10, 20, 30, 40 :: rat]) - 1) = 9 / 5
   \<and> sort [10, 20, 30, 40 :: rat] ! 1 * (1 - 4 / 5) + sort [10, 20, 30, 40 :: rat] ! 2 * (4 / 5) = 28
   \<and> calculatePercentile [10, 20, 30, 40] 60 = Some 28
   \<and> calculatePercentileDouble [10, 20, 30, 40] 60 = Some (7881299347898367 / 281474976710656)
   \<and> (7881299347898367 / 281474976710656 :: rat) \<noteq> 28
   \<and> (28 :: rat) / 100 * (of_nat (length (map (\<lambda>i. rat_of_int (100 * i)) [0..25])) - 1) = 7
   \<and> sort (map (\<lambda>i. rat_of_int (100 * i)) [0..25]) ! 7 = 700
   \<and> calculatePercentileDouble (map (\<lambda>i. rat_of_int (100 * i)) [0..25]) 28
        = Some (6157265115545601 / 8796093022208)
   \<and> (6157265115545601 / 8796093022208 :: rat) \<noteq> 700"
proof -
  let ?scores = "map (\<lambda>i. rat_of_int (100 * i)) [0..25]"
  have four: "(60 :: rat) / 100 * (of_nat (length [10, 20, 30, 40 :: rat]) - 1) = 9 / 5
      \<and> sort [10, 20, 30, 40 :: rat] ! 1 * (1 - 4 / 5) + sort [10, 20, 30, 40 :: rat] ! 2 * (4 / 5) = 28
      \<and> calculatePercentile [10, 20, 30, 40] 60 = Some 28
      \<and> calculatePercentileDouble [10, 20, 30, 40] 60 = Some (7881299347898367 / 281474976710656)
      \<and> (7881299347898367 / 281474976710656 :: rat) \<noteq> 28"
    by code_simp
  have exact: "(28 :: rat) / 100 * (of_nat (length ?scores) - 1) = 7
      \<and> sort ?scores ! 7 = 700
      \<and> (6157265115545601 / 8796093022208 :: rat) \<noteq> 700"
    by code_simp
  have ne: "?scores \<noteq> []" by code_simp
  have fraction: "roundDouble (28 / 100) = Some (1261007895663739 / 4503599627370496)"
    by code_simp
  have index: "roundDouble (1261007895663739 / 4503599627370496 * (of_nat (length (sort ?scores)) - 1))
                 = Some (7881299347898369 / 1125899906842624)"
    by code_simp
  have fl: "\<lfloor>7881299347898369 / 1125899906842624 :: rat\<rfloor> = 7" by code_simp
  have ce: "\<lceil>7881299347898369 / 1125899906842624 :: rat\<rceil> = 8" by code_simp
  have "roundDouble (rat_of_int 1 / 2 ^ 50) = Some (rat_of_int 1 / 2 ^ 50)"
    by (rule roundDouble_dyadic) simp_all
  then have weight: "roundDouble (7881299347898369 / 1125899906842624 - of_int 7)
                       = Some (1 / 1125899906842624)"
    by simp
  have lower: "arrayGet (sort ?scores) 7 = Some 700" by code_simp
  have upper: "arrayGet (sort ?scores) 8 = Some 800" by code_simp
  have "roundDouble (rat_of_int 1125899906842623 / 2 ^ 50)
          = Some (rat_of_int 1125899906842623 / 2 ^ 50)"
    by (rule roundDouble_dyadic) simp_all
  then have rest: "roundDouble (1 - 1 / 1125899906842624)
                     = Some (1125899906842623 / 1125899906842624)"
    by simp
  have a: "roundDouble (700 * (1125899906842623 / 1125899906842624))
             = Some (6157265115545595 / 8796093022208)"
    by code_simp
  have "roundDouble (rat_of_int 25 / 2 ^ 45) = Some (rat_of_int 25 / 2 ^ 45)"
    by (rule roundDouble_dyadic) simp_all
  then have b: "roundDouble (800 * (1 / 1125899906842624)) = Some (25 / 35184372088832)"
    by simp
  have apart: "\<lfloor>7881299347898369 / 1125899906842624 :: rat\<rfloor>
                 \<noteq> \<lceil>7881299347898369 / 1125899906842624 :: rat\<rceil>"
    unfolding fl ce by simp
  have weight': "roundDouble (7881299347898369 / 1125899906842624
                   - of_int \<lfloor>7881299347898369 / 1125899906842624 :: rat\<rfloor>)
                   = Some (1 / 1125899906842624)"
    unfolding fl by (rule weight)
  have lower': "arrayGet (sort ?scores) \<lfloor>7881299347898369 / 1125899906842624 :: rat\<rfloor>
                  = Some 700"
    unfolding fl by (rule lower)
  have upper': "arrayGet (sort ?scores) \<lceil>7881299347898369 / 1125899906842624 :: rat\<rceil>
                  = Some 800"
    unfolding ce by (rule upper)
  have "calculatePercentileDouble ?scores 28
          = roundDouble (6157265115545595 / 8796093022208 + 25 / 35184372088832)"
    by (rule calculatePercentileDouble_steps
          [OF ne fraction index apart weight' lower' upper' rest a b])
  also have "\<dots> = Some (6157265115545601 / 8796093022208)"
    by code_simp
  finally show ?thesis using four exact by simp
qed

subsection \<open>The classifier\<close>

lemma policyB_cases:
  assumes "accidents \<noteq> []" and "population = None \<or> population = Some []"
  shows "calculateSafetyLevelFromAccidents accidents population =
           (if calculateSeverityScore accidents \<ge> 50 then HighRisk
            else if calculateSeverityScore accidents \<ge> 20 then Moderate else Safe)"
  using assms by (auto simp: calculateSafetyLevelFromAccidents_def Let_def)

text \<open>
  Claim C4. Given a non-empty group and no comparison population (the argument is
  absent, or is the empty array), the classifier returns high-risk exactly when
  the severity score is at least 50, moderate exactly when it is at least 20 and
  below 50, and safe exactly when it is below 20. The group with fatalities
  1, 0, 0 and severities "fatal", "moderate", "minor" scores 17 and is safe. (The
  witness classifies groups that score 49, 20, 19 and 50.)
\<close>

theorem policyB_thresholds:
  assumes "accidents \<noteq> []" and "population = None \<or> population = Some []"
  shows "(calculateSafetyLevelFromAccidents accidents population = HighRisk
            \<longleftrightarrow> calculateSeverityScore accidents \<ge> 50)
       \<and> (calculateSafetyLevelFromAccidents accidents population = Moderate
            \<longleftrightarrow> calculateSeverityScore accidents \<ge> 20 \<and> calculateSeverityScore accidents < 50)
       \<and> (calculateSafetyLevelFromAccidents accidents population = Safe
            \<longleftrightarrow> calculateSeverityScore accidents < 20)
       \<and> calculateSeverityScore
            [accidentOf ''r1'' ''10:00'' ''A'' (Some 1) (Some ''fatal'') None,
             accidentOf ''r2'' ''11:00'' ''A'' (Some 0) (Some ''moderate'') None,
             accidentOf ''r3'' ''12:00'' ''A'' (Some 0) (Some ''minor'') None] = 17
       \<and> calculateSafetyLevelFromAccidents
            [accidentOf ''r1'' ''10:00'' ''A'' (Some 1) (Some ''fatal'') None,
             accidentOf ''r2'' ''11:00'' ''A'' (Some 0) (Some ''moderate'') None,
             accidentOf ''r3'' ''12:00'' ''A'' (Some 0) (Some ''minor'') None] None = Safe"
proof -
  have e1: "calculateSeverityScore
            [accidentOf ''r1'' ''10:00'' ''A'' (Some 1) (Some ''fatal'') None,
             accidentOf ''r2'' ''11:00'' ''A'' (Some 0) (Some ''moderate'') None,
             accidentOf ''r3'' ''12:00'' ''A'' (Some 0) (Some ''minor'') None] = 17"
    by code_simp
  have e2: "calculateSafetyLevelFromAccidents
            [accidentOf ''r1'' ''10:00'' ''A'' (Some 1) (Some ''fatal'') None,
             accidentOf ''r2'' ''11:00'' ''A'' (Some 0) (Some ''moderate'') None,
             accidentOf ''r3'' ''12:00'' ''A'' (Some 0) (Some ''minor'') None] None = Safe"
    by code_simp
  show ?thesis
    unfolding policyB_cases[OF assms] using e1 e2 by simp
qed

theorem policyB_thresholds_witness:
  "calculateSeverityScore
     [accidentOf ''r1'' ''10:00'' ''A'' (Some 4) (Some ''Fatal'') None,
      accidentOf ''r2'' ''11:00'' ''A'' None (Some ''moderate'') None,
      accidentOf ''r3'' ''12:00'' ''A'' None (Some ''MODERATE'') None] = 49
   \<and> calculateSafetyLevelFromAccidents
     [accidentOf ''r1'' ''10:00'' ''A'' (Some 4) (Some ''Fatal'') None,
      accidentOf ''r2'' ''11:00'' ''A'' None (Some ''moderate'') None,
      accidentOf ''r3'' ''12:00'' ''A'' None (Some ''MODERATE'') None] None = Moderate
   \<and> calculateSeverityScore [accidentOf ''r1'' ''10:00'' ''A'' (Some 2) None None] = 20
   \<and> calculateSafetyLevelFromAccidents [accidentOf ''r1'' ''10:00'' ''A'' (Some 2) None None] (Some []) = Moderate
   \<and> calculateSeverityScore
     [accidentOf ''r1'' ''10:00'' ''A'' (Some 1) (Some ''severe'') None,
      accidentOf ''r2'' ''11:00'' ''A'' None (Some ''moderate'') None,
      accidentOf ''r3'' ''12:00'' ''A'' None (Some ''moderate'') None] = 19
   \<and> calculateSafetyLevelFromAccidents
     [accidentOf ''r1'' ''10:00'' ''A'' (Some 1) (Some ''severe'') None,
      accidentOf ''r2'' ''11:00'' ''A'' None (Some ''moderate'') None,
      accidentOf ''r3'' ''12:00'' ''A'' None (Some ''moderate'') None] None = Safe
   \<and> calculateSafetyLevelFromAccidents [accidentOf ''r1'' ''10:00'' ''A'' (Some 5) None None] None = HighRisk"
proof -
  let ?g49 = "[accidentOf ''r1'' ''10:00'' ''A'' (Some 4) (Some ''Fatal'') None,
      accidentOf ''r2'' ''11:00'' ''A'' None (Some ''moderate'') None,
      accidentOf ''r3'' ''12:00'' ''A'' None (Some ''MODERATE'') None]"
  let ?g20 = "[accidentOf ''r1'' ''10:00'' ''A'' (Some 2) None None]"
  let ?g19 = "[accidentOf ''r1'' ''10:00'' ''A'' (Some 1) (Some ''severe'') None,
      accidentOf ''r2'' ''11:00'' ''A'' None (Some ''moderate'') None,
      accidentOf ''r3'' ''12:00'' ''A'' None (Some ''moderate'') None]"
  let ?g50 = "[accidentOf ''r1'' ''10:00'' ''A'' (Some 5) None None]"
  have s49: "calculateSeverityScore ?g49 = 49" by code_simp
  have s20: "calculateSeverityScore ?g20 = 20" by code_simp
  have s19: "calculateSeverityScore ?g19 = 19" by code_simp
  have s50: "calculateSeverityScore ?g50 = 50" by code_simp
  have n: "?g49 \<noteq> []" "?g20 \<noteq> []" "?g19 \<noteq> []" "?g50 \<noteq> []" by simp_all
  have pn: "(None :: rat list option) = None \<or> (None :: rat list option) = Some []" by simp
  have pe: "Some ([] :: rat list) = None \<or> Some ([] :: rat list) = Some []" by simp
  show ?thesis
    using policyB_thresholds[OF n(1) pn] policyB_thresholds[OF n(2) pe]
          policyB_thresholds[OF n(3) pn] policyB_thresholds[OF n(4) pn]
    by (simp add: s49 s20 s19 s50)
qed

text \<open>
  Claim C5. On an empty record collection every function returns its default and
  none fails: the classifier returns safe whatever the comparison population,
  also for the hour-filtered prediction when no record's hour is the target
  hour; the severity score is 0; the cause ranking is empty and the dominant
  cause is "Unknown".
\<close>

theorem empty_input_defaults:
  "calculateSafetyLevelFromAccidents [] population = Safe
   \<and> calculateSeverityScore [] = 0
   \<and> getTopCauses [] = Some []
   \<and> getDominantCause [] = Some ''Unknown''
   \<and> ((\<forall>a\<in>set historicalData. parseHour (time a) \<noteq> Some hour)
        \<longrightarrow> predictSafetyForHour hour historicalData population = Safe)"
proof -
  have "filter (\<lambda>acc. parseHour (time acc) = Some hour) historicalData = []"
    if "\<forall>a\<in>set historicalData. parseHour (time a) \<noteq> Some hour"
    using that by (simp add: filter_empty_conv)
  then have p: "(\<forall>a\<in>set historicalData. parseHour (time a) \<noteq> Some hour)
        \<longrightarrow> predictSafetyForHour hour historicalData population = Safe"
    by (simp add: predictSafetyForHour_def calculateSafetyLevelFromAccidents_def)
  have t: "getTopCauses [] = Some []"
    by (simp add: getTopCauses_def causeCounts_def objectEntries_def)
  show ?thesis using p t
    by (simp add: calculateSafetyLevelFromAccidents_def calculateSeverityScore_def
        getDominantCause_def)
qed

theorem empty_input_defaults_witness:
  "parseHour ''09:00'' = Some 9 \<and> parseHour ''3:15 PM'' = Some 15
   \<and> predictSafetyForHour 14
       [accidentOf ''r1'' ''09:00'' ''A'' (Some 9) (Some ''fatal'') None,
        accidentOf ''r2'' ''3:15 PM'' ''A'' (Some 9) (Some ''fatal'') None] (Some [1, 2, 3]) = Safe
   \<and> predictSafetyForHour 15
       [accidentOf ''r1'' ''09:00'' ''A'' (Some 9) (Some ''fatal'') None,
        accidentOf ''r2'' ''3:15 PM'' ''A'' (Some 9) (Some ''fatal'') None] (Some [1, 2, 3]) = HighRisk"
proof -
  have h1: "parseHour ''09:00'' = Some 9" by code_simp
  have h2: "parseHour ''3:15 PM'' = Some 15" by code_simp
  have h: "\<forall>a\<in>set [accidentOf ''r1'' ''09:00'' ''A'' (Some 9) (Some ''fatal'') None,
               accidentOf ''r2'' ''3:15 PM'' ''A'' (Some 9) (Some ''fatal'') None].
       parseHour (time a) \<noteq> Some 14"
    by (simp add: h1 h2 accidentOf_def)
  have e: "predictSafetyForHour 15
       [accidentOf ''r1'' ''09:00'' ''A'' (Some 9) (Some ''fatal'') None,
        accidentOf ''r2'' ''3:15 PM'' ''A'' (Some 9) (Some ''fatal'') None] (Some [1, 2, 3]) = HighRisk"
    by code_simp
  show ?thesis
    using empty_input_defaults[of "Some [1, 2, 3]"
        "[accidentOf ''r1'' ''09:00'' ''A'' (Some 9) (Some ''fatal'') None,
          accidentOf ''r2'' ''3:15 PM'' ''A'' (Some 9) (Some ''fatal'') None]" 14] h h1 h2 e
    by blast
qed

lemma policyA_high_risk:
  assumes ne: "accidents \<noteq> []" and pop: "population \<noteq> []"
    and top: "\<forall>s\<in>set population. s \<le> of_int (calculateSeverityScore accidents)"
  shows "calculateSafetyLevelFromAccidents accidents (Some population) = HighRisk"
proof -
  obtain v where v: "calculatePercentile population 75 = Some v"
      "v \<le> of_int (calculateSeverityScore accidents)"
    using calculatePercentile_le_bound[OF pop _ _ top, of 75] by auto
  show ?thesis
    using ne pop v
    by (simp add: calculateSafetyLevelFromAccidents_def Let_def scoreAtLeast_def)
qed

text \<open>
  Claim C10. With a non-empty comparison population, the 75th percentile is a
  number that does not exceed the maximum of the population; hence a non-empty
  group whose score is at least every score of the population is high-risk. In
  particular, when all scores of the population equal the group's score (a
  dataset with a single area), the group is high-risk however small the score.
\<close>

theorem policyA_top_score_is_high_risk:
  assumes "accidents \<noteq> []" and "population \<noteq> []"
  shows "(\<exists>v. calculatePercentile population 75 = Some v \<and> v \<le> Max (set population))
       \<and> ((\<forall>s\<in>set population. s \<le> of_int (calculateSeverityScore accidents))
            \<longrightarrow> calculateSafetyLevelFromAccidents accidents (Some population) = HighRisk)
       \<and> ((\<forall>s\<in>set population. s = of_int (calculateSeverityScore accidents))
            \<longrightarrow> calculateSafetyLevelFromAccidents accidents (Some population) = HighRisk)"
proof -
  have m: "\<forall>s\<in>set population. s \<le> Max (set population)" by simp
  have a: "\<exists>v. calculatePercentile population 75 = Some v \<and> v \<le> Max (set population)"
    by (rule calculatePercentile_le_bound[OF assms(2) _ _ m]) simp_all
  have b: "(\<forall>s\<in>set population. s \<le> of_int (calculateSeverityScore accidents))
            \<longrightarrow> calculateSafetyLevelFromAccidents accidents (Some population) = HighRisk"
    using policyA_high_risk[OF assms] by blast
  have c: "(\<forall>s\<in>set population. s = of_int (calculateSeverityScore accidents))
            \<longrightarrow> calculateSafetyLevelFromAccidents accidents (Some population) = HighRisk"
    using policyA_high_risk[OF assms] by simp
  show ?thesis using a b c by blast
qed

theorem policyA_top_score_is_high_risk_witness:
  "calculateSeverityScore [accidentOf ''r1'' ''10:00'' ''A'' None (Some ''minor'') None] = 0
   \<and> calculateSafetyLevelFromAccidents
        [accidentOf ''r1'' ''10:00'' ''A'' None (Some ''minor'') None] (Some [0]) = HighRisk
   \<and> calculateSafetyLevelFromAccidents
        [accidentOf ''r1'' ''10:00'' ''A'' None (Some ''minor'') None] (Some [0, -3, 0]) = HighRisk
   \<and> calculateSafetyLevelFromAccidents
        [accidentOf ''r1'' ''10:00'' ''A'' None (Some ''minor'') None] None = Safe"
proof -
  let ?g = "[accidentOf ''r1'' ''10:00'' ''A'' None (Some ''minor'') None]"
  have s: "calculateSeverityScore ?g = 0" by code_simp
  have n: "?g \<noteq> []" by simp
  have p1: "[0::rat] \<noteq> []" and p2: "[0::rat, -3, 0] \<noteq> []" by simp_all
  have b: "calculateSafetyLevelFromAccidents ?g None = Safe" by code_simp
  show ?thesis
    using policyA_top_score_is_high_risk[OF n p1] policyA_top_score_is_high_risk[OF n p2] b
    by (simp add: s)
qed

subsection \<open>Hour of day\<close>












subsection \<open>Recommendation lookup\<close>

lemmas advisory_defs =
  civilianWeather_def civilianSpeed_def civilianAttention_def civilianAlcohol_def
  civilianPedestrian_def civilianOvertaking_def civilianDefault_def
  governmentWeather_def governmentSpeed_def governmentAttention_def governmentAlcohol_def
  governmentPedestrian_def governmentOvertaking_def governmentDefault_def

lemma suggestions_firstMatch:
  "(getGovernmentSuggestions cause, getCivilianSuggestions cause) =
     firstMatch (toLowerCase cause) keywordCategories"
  by (simp add: getGovernmentSuggestions_def getCivilianSuggestions_def keywordCategories_def Let_def)

lemma government_nonempty: "getGovernmentSuggestions cause \<noteq> []"
  by (simp add: getGovernmentSuggestions_def Let_def advisory_defs)

lemma civilian_nonempty: "getCivilianSuggestions cause \<noteq> []"
  by (simp add: getCivilianSuggestions_def Let_def advisory_defs)

text \<open>
  Claim C9, as amended. The two lookups lowercase the dominant cause and return
  the advisory lists of the first category, in the order of \<open>keywordCategories\<close>,
  one of whose keywords occurs in it; the keywords are weather, rain, fog; speed,
  overspeeding; inattention, distract, red light, signal; alcohol, drunk;
  pedestrian, jaywalking; overtaking, reckless. When no keyword occurs the
  default lists are returned, as for "Unrelated Mystery Cause". Both lists are
  never empty.
\<close>

theorem recommendation_lookup:
  "(getGovernmentSuggestions cause, getCivilianSuggestions cause) =
     firstMatch (toLowerCase cause) keywordCategories
   \<and> map fst keywordCategories =
       [[''weather'', ''rain'', ''fog''], [''speed'', ''overspeeding''],
        [''inattention'', ''distract'', ''red light'', ''signal''], [''alcohol'', ''drunk''],
        [''pedestrian'', ''jaywalking''], [''overtaking'', ''reckless'']]
   \<and> getGovernmentSuggestions cause \<noteq> [] \<and> getCivilianSuggestions cause \<noteq> []
   \<and> getGovernmentSuggestions ''Unrelated Mystery Cause'' = governmentDefault
   \<and> getCivilianSuggestions ''Unrelated Mystery Cause'' = civilianDefault"
proof -
  have d: "getGovernmentSuggestions ''Unrelated Mystery Cause'' = governmentDefault"
    "getCivilianSuggestions ''Unrelated Mystery Cause'' = civilianDefault"
    by code_simp+
  have k: "map fst keywordCategories =
       [[''weather'', ''rain'', ''fog''], [''speed'', ''overspeeding''],
        [''inattention'', ''distract'', ''red light'', ''signal''], [''alcohol'', ''drunk''],
        [''pedestrian'', ''jaywalking''], [''overtaking'', ''reckless'']]"
    by (simp add: keywordCategories_def)
  show ?thesis
    using suggestions_firstMatch[of cause] government_nonempty[of cause]
      civilian_nonempty[of cause] d k by simp
qed

theorem recommendation_lookup_witness:
  "getGovernmentSuggestions ''Overspeeding in Heavy RAIN'' = governmentWeather
   \<and> getCivilianSuggestions ''Overspeeding in Heavy RAIN'' = civilianWeather
   \<and> getCivilianSuggestions ''Drunk pedestrian'' = civilianAlcohol"
proof -
  have f: "firstMatch (toLowerCase ''Overspeeding in Heavy RAIN'') keywordCategories
             = (governmentWeather, civilianWeather)"
    "firstMatch (toLowerCase ''Drunk pedestrian'') keywordCategories
             = (governmentAlcohol, civilianAlcohol)"
    by code_simp+
  show ?thesis
    using recommendation_lookup[of "''Overspeeding in Heavy RAIN''"]
      recommendation_lookup[of "''Drunk pedestrian''"]
    by (simp add: f)
qed

text \<open>
  The claim as written gives the third category the keywords inattention,
  distraction and signal. "Red Light Jumping" contains none of the keywords the
  claim lists, yet it is answered with the lists of the third category and not
  with the default lists.
\<close>

theorem recommendation_lookup_counterexample:
  "\<not> stringIncludes (toLowerCase ''Red Light Jumping'') ''weather''
   \<and> \<not> stringIncludes (toLowerCase ''Red Light Jumping'') ''rain''
   \<and> \<not> stringIncludes (toLowerCase ''Red Light Jumping'') ''fog''
   \<and> \<not> stringIncludes (toLowerCase ''Red Light Jumping'') ''speed''
   \<and> \<not> stringIncludes (toLowerCase ''Red Light Jumping'') ''overspeeding''
   \<and> \<not> stringIncludes (toLowerCase ''Red Light Jumping'') ''inattention''
   \<and> \<not> stringIncludes (toLowerCase ''Red Light Jumping'') ''distraction''
   \<and> \<not> stringIncludes (toLowerCase ''Red Light Jumping'') ''signal''
   \<and> \<not> stringIncludes (toLowerCase ''Red Light Jumping'') ''alcohol''
   \<and> \<not> stringIncludes (toLowerCase ''Red Light Jumping'') ''drunk''
   \<and> \<not> stringIncludes (toLowerCase ''Red Light Jumping'') ''pedestrian''
   \<and> \<not> stringIncludes (toLowerCase ''Red Light Jumping'') ''jaywalking''
   \<and> \<not> stringIncludes (toLowerCase ''Red Light Jumping'') ''overtaking''
   \<and> \<not> stringIncludes (toLowerCase ''Red Light Jumping'') ''reckless''
   \<and> getCivilianSuggestions ''Red Light Jumping'' = civilianAttention
   \<and> getCivilianSuggestions ''Red Light Jumping'' \<noteq> civilianDefault
   \<and> getGovernmentSuggestions ''Red Light Jumping'' = governmentAttention
   \<and> getGovernmentSuggestions ''Red Light Jumping'' \<noteq> governmentDefault"
  by code_simp

subsection \<open>Objects and first-seen order\<close>

lemma firstSeen_Nil: "firstSeen [] = []"
  by (simp add: firstSeen_def)

lemma firstSeen_snoc:
  "firstSeen (xs @ [x]) = (if x \<in> set xs then firstSeen xs else firstSeen xs @ [x])"
  by (simp add: firstSeen_def)

lemma set_firstSeen: "set (firstSeen xs) = set xs"
  by (simp add: firstSeen_def)

lemma distinct_firstSeen: "distinct (firstSeen xs)"
  by (simp add: firstSeen_def)

lemma map_of_keyed:
  "map_of (map (\<lambda>k. (k, f k)) ks) k = (if k \<in> set ks then Some (f k) else None)"
  by (induction ks) auto

lemma putEntry_absent:
  "k \<notin> set ks \<Longrightarrow> putEntry k v (map (\<lambda>k. (k, f k)) ks) = map (\<lambda>k. (k, f k)) ks @ [(k, v)]"
  by (induction ks) auto

lemma putEntry_present:
  "k \<in> set ks \<Longrightarrow> distinct ks \<Longrightarrow>
     putEntry k v (map (\<lambda>k. (k, f k)) ks) = map (\<lambda>k'. (k', if k' = k then v else f k')) ks"
proof (induction ks)
  case Nil
  then show ?case by simp
next
  case (Cons a ks)
  show ?case
  proof (cases "a = k")
    case True
    then have "k \<notin> set ks" using Cons.prems by simp
    then have "map (\<lambda>k. (k, f k)) ks = map (\<lambda>k'. (k', if k' = k then v else f k')) ks"
      by (intro map_cong) auto
    then show ?thesis using True by simp
  next
    case False
    then show ?thesis using Cons by simp
  qed
qed

lemma insort_key_keyed:
  "insort_key (\<lambda>p. g (fst p)) (k, f k) (map (\<lambda>k. (k, f k)) ks) =
     map (\<lambda>k. (k, f k)) (insort_key g k ks)"
  by (induction ks) auto

lemma sort_key_keyed:
  "sort_key (\<lambda>p. g (fst p)) (map (\<lambda>k. (k, f k)) ks) = map (\<lambda>k. (k, f k)) (sort_key g ks)"
  by (induction ks) (simp_all add: insort_key_keyed)

lemma objectEntries_keyed:
  "objectEntries (map (\<lambda>k. (k, f k)) ks) = map (\<lambda>k. (k, f k)) (ownPropertyKeys ks)"
  by (simp add: objectEntries_def ownPropertyKeys_def filter_map comp_def sort_key_keyed)

lemma set_ownPropertyKeys: "set (ownPropertyKeys ks) = set ks"
  by (auto simp: ownPropertyKeys_def)

lemma distinct_ownPropertyKeys: "distinct ks \<Longrightarrow> distinct (ownPropertyKeys ks)"
  by (auto simp: ownPropertyKeys_def)

lemma length_ownPropertyKeys: "length (ownPropertyKeys ks) = length ks"
  by (simp add: ownPropertyKeys_def sum_length_filter_compl)

lemma ownPropertyKeys_no_index:
  "\<forall>k\<in>set ks. \<not> isArrayIndex k \<Longrightarrow> ownPropertyKeys ks = ks"
  by (simp add: ownPropertyKeys_def filter_empty_conv[THEN iffD2] filter_id_conv[THEN iffD2])

subsection \<open>Grouping by area\<close>

lemma groupStep_groupsOf:
  assumes "area a \<notin> set objectPrototypeKeys"
  shows "groupStep (groupsOf pre) a = Inr (groupsOf (pre @ [a]))"
proof (cases "area a \<in> set (map area pre)")
  case True
  then have m: "area a \<in> set (firstSeen (map area pre))" by (simp add: set_firstSeen)
  have "putEntry (area a) (filter (\<lambda>b. area b = area a) pre @ [a]) (groupsOf pre)
          = map (\<lambda>k. (k, if k = area a then filter (\<lambda>b. area b = area a) pre @ [a]
                          else filter (\<lambda>b. area b = k) pre)) (firstSeen (map area pre))"
    unfolding groupsOf_def by (rule putEntry_present[OF m distinct_firstSeen])
  also have "\<dots> = groupsOf (pre @ [a])"
    using True unfolding groupsOf_def by (auto simp: firstSeen_snoc)
  finally show ?thesis
    using m by (simp add: groupStep_def groupsOf_def map_of_keyed)
next
  case False
  then have m: "area a \<notin> set (firstSeen (map area pre))" by (simp add: set_firstSeen)
  have "\<And>b. b \<in> set pre \<Longrightarrow> area b \<noteq> area a"
    using False by (metis image_eqI set_map)
  then have f0: "filter (\<lambda>b. area b = area a) pre = []"
    by (simp add: filter_empty_conv)
  have "putEntry (area a) [a] (groupsOf pre) = groupsOf pre @ [(area a, [a])]"
    unfolding groupsOf_def by (rule putEntry_absent[OF m])
  also have "\<dots> = groupsOf (pre @ [a])"
    using False m f0 unfolding groupsOf_def
    by (auto simp: firstSeen_snoc set_firstSeen)
  finally show ?thesis
    using m assms by (simp add: groupStep_def groupsOf_def map_of_keyed)
qed

lemma reduceGroups_groupsOf:
  assumes "\<forall>a\<in>set rest. area a \<notin> set objectPrototypeKeys"
  shows "reduceGroups (groupsOf pre) rest = Inr (groupsOf (pre @ rest))"
  using assms
proof (induction rest arbitrary: pre)
  case Nil
  show ?case by simp
next
  case (Cons a rest)
  have "reduceGroups (groupsOf pre) (a # rest) = reduceGroups (groupsOf (pre @ [a])) rest"
    using Cons.prems by (simp add: groupStep_groupsOf)
  also have "\<dots> = Inr (groupsOf ((pre @ [a]) @ rest))"
    using Cons.prems by (intro Cons.IH) simp
  finally show ?case by simp
qed

lemma areaGroups_groupsOf:
  assumes "\<forall>a\<in>set accidents. area a \<notin> set objectPrototypeKeys"
  shows "areaGroups accidents = Inr (groupsOf accidents)"
proof -
  have "groupsOf [] = []" by (simp add: groupsOf_def firstSeen_Nil)
  then show ?thesis
    using reduceGroups_groupsOf[OF assms, of "[]"] by (simp add: areaGroups_def)
qed

text \<open>An area that names an inherited property makes the grouping throw.\<close>

lemma keys_putEntry: "fst ` set (putEntry k v ps) = insert k (fst ` set ps)"
  by (induction ps) auto

lemma map_of_no_key: "k \<notin> fst ` set ps \<Longrightarrow> map_of ps k = None"
  by (simp add: map_of_eq_None_iff)

lemma reduceGroups_TypeError:
  assumes "\<forall>k\<in>fst ` set acc. k \<notin> set objectPrototypeKeys"
    and "\<exists>a\<in>set rest. area a \<in> set objectPrototypeKeys"
  shows "reduceGroups acc rest = Inl TypeError"
  using assms
proof (induction rest arbitrary: acc)
  case Nil
  then show ?case by simp
next
  case (Cons a rest)
  show ?case
  proof (cases "area a \<in> set objectPrototypeKeys")
    case True
    then have "area a \<notin> fst ` set acc" using Cons.prems(1) by blast
    then have "map_of acc (area a) = None" by (rule map_of_no_key)
    then show ?thesis using True by (simp add: groupStep_def)
  next
    case False
    then have later: "\<exists>b\<in>set rest. area b \<in> set objectPrototypeKeys"
      using Cons.prems(2) by auto
    have "\<exists>acc'. groupStep acc a = Inr acc' \<and> fst ` set acc' = insert (area a) (fst ` set acc)"
      using False by (cases "map_of acc (area a)") (simp_all add: groupStep_def keys_putEntry)
    then obtain acc' where step: "groupStep acc a = Inr acc'"
      and keys: "fst ` set acc' = insert (area a) (fst ` set acc)"
      by blast
    have inv: "\<forall>k\<in>fst ` set acc'. k \<notin> set objectPrototypeKeys"
      unfolding keys using False Cons.prems(1) by simp
    show ?thesis
      using Cons.IH[OF inv later] by (simp add: step)
  qed
qed

lemma areaGroups_TypeError:
  assumes "\<exists>a\<in>set accidents. area a \<in> set objectPrototypeKeys"
  shows "areaGroups accidents = Inl TypeError"
  unfolding areaGroups_def by (rule reduceGroups_TypeError[OF _ assms]) simp

lemma filter_firstSeen: "filter P (firstSeen xs) = firstSeen (filter P xs)"
  by (simp add: firstSeen_def rev_filter remdups_filter)

lemma sum_group_sizes:
  assumes "finite K" and "f ` set xs \<subseteq> K"
  shows "(\<Sum>k\<in>K. length (filter (\<lambda>a. f a = k) xs)) = length xs"
  using assms(2)
proof (induction xs)
  case Nil
  show ?case by simp
next
  case (Cons x xs)
  have "(\<Sum>k\<in>K. length (filter (\<lambda>a. f a = k) (x # xs))) =
        (\<Sum>k\<in>K. (if f x = k then 1 else 0) + length (filter (\<lambda>a. f a = k) xs))"
    by (rule sum.cong) simp_all
  also have "\<dots> = (\<Sum>k\<in>K. if f x = k then 1 else 0) + (\<Sum>k\<in>K. length (filter (\<lambda>a. f a = k) xs))"
    by (rule sum.distrib)
  also have "(\<Sum>k\<in>K. if f x = k then 1 else 0) = (1::nat)"
    using Cons.prems assms(1) by (simp add: sum.delta')
  also have "(\<Sum>k\<in>K. length (filter (\<lambda>a. f a = k) xs)) = length xs"
    using Cons.prems by (intro Cons.IH) simp
  finally show ?case by simp
qed

lemma sum_list_group_sizes:
  assumes "distinct ks" and "set ks = f ` set xs"
  shows "sum_list (map (\<lambda>k. length (filter (\<lambda>a. f a = k) xs)) ks) = length xs"
proof -
  have "sum_list (map (\<lambda>k. length (filter (\<lambda>a. f a = k) xs)) ks)
          = (\<Sum>k\<in>set ks. length (filter (\<lambda>a. f a = k) xs))"
    by (rule sum_list_distinct_conv_sum_set[OF assms(1)])
  also have "\<dots> = length xs"
    by (rule sum_group_sizes) (simp_all add: assms(2))
  finally show ?thesis .
qed

lemma entries_groupsOf:
  "objectEntries (groupsOf accidents) =
     map (\<lambda>k. (k, filter (\<lambda>a. area a = k) accidents)) (ownPropertyKeys (firstSeen (map area accidents)))"
  unfolding groupsOf_def by (rule objectEntries_keyed)

lemma keys_entries_groupsOf:
  "map fst (objectEntries (groupsOf accidents)) = ownPropertyKeys (firstSeen (map area accidents))"
  by (simp add: entries_groupsOf comp_def)

lemma distinct_keys_groupsOf: "distinct (map fst (objectEntries (groupsOf accidents)))"
  unfolding keys_entries_groupsOf by (intro distinct_ownPropertyKeys distinct_firstSeen)

lemma set_keys_groupsOf: "fst ` set (objectEntries (groupsOf accidents)) = area ` set accidents"
proof -
  have "fst ` set (objectEntries (groupsOf accidents)) = set (map fst (objectEntries (groupsOf accidents)))"
    by simp
  also have "\<dots> = area ` set accidents"
    unfolding keys_entries_groupsOf by (simp add: set_ownPropertyKeys set_firstSeen)
  finally show ?thesis .
qed

lemma members_groupsOf:
  assumes "e \<in> set (objectEntries (groupsOf accidents))"
  shows "snd e = filter (\<lambda>a. area a = fst e) accidents" and "snd e \<noteq> []"
proof -
  obtain k where k: "k \<in> set (ownPropertyKeys (firstSeen (map area accidents)))"
      "e = (k, filter (\<lambda>a. area a = k) accidents)"
    using assms unfolding entries_groupsOf by auto
  show "snd e = filter (\<lambda>a. area a = fst e) accidents" using k(2) by simp
  have "k \<in> area ` set accidents" using k(1) by (simp add: set_ownPropertyKeys set_firstSeen)
  then obtain a where "a \<in> set accidents" "area a = k" by auto
  then have "a \<in> set (snd e)" unfolding k(2) by simp
  then show "snd e \<noteq> []" by auto
qed

lemma sizes_groupsOf:
  "sum_list (map (\<lambda>e. length (snd e)) (objectEntries (groupsOf accidents))) = length accidents"
proof -
  have "sum_list (map (\<lambda>e. length (snd e)) (objectEntries (groupsOf accidents)))
        = sum_list (map (\<lambda>k. length (filter (\<lambda>a. area a = k) accidents))
                        (ownPropertyKeys (firstSeen (map area accidents))))"
    by (simp add: entries_groupsOf comp_def)
  also have "\<dots> = length accidents"
    by (rule sum_list_group_sizes)
       (simp_all add: distinct_ownPropertyKeys distinct_firstSeen set_ownPropertyKeys set_firstSeen)
  finally show ?thesis .
qed

lemma other_keys_groupsOf:
  "filter (\<lambda>k. \<not> isArrayIndex k) (map fst (objectEntries (groupsOf accidents)))
     = firstSeen (filter (\<lambda>k. \<not> isArrayIndex k) (map area accidents))"
proof -
  have "filter (\<lambda>k. \<not> isArrayIndex k) (ownPropertyKeys ks) = filter (\<lambda>k. \<not> isArrayIndex k) ks" for ks
    by (simp add: ownPropertyKeys_def filter_sort filter_empty_conv)
  then show ?thesis
    unfolding keys_entries_groupsOf by (simp add: filter_firstSeen)
qed

lemma index_keys_groupsOf:
  "sorted (map arrayIndexValue (filter isArrayIndex (map fst (objectEntries (groupsOf accidents)))))"
  unfolding keys_entries_groupsOf
  by (simp add: ownPropertyKeys_def)

lemma index_keys_first_groupsOf:
  "map fst (objectEntries (groupsOf accidents)) =
     filter isArrayIndex (map fst (objectEntries (groupsOf accidents)))
     @ filter (\<lambda>k. \<not> isArrayIndex k) (map fst (objectEntries (groupsOf accidents)))"
  unfolding keys_entries_groupsOf
  by (simp add: ownPropertyKeys_def filter_sort filter_empty_conv)

lemma plain_keys_groupsOf:
  "(\<forall>a\<in>set accidents. \<not> isArrayIndex (area a)) \<longrightarrow>
     map fst (objectEntries (groupsOf accidents)) = firstSeen (map area accidents)"
proof
  assume "\<forall>a\<in>set accidents. \<not> isArrayIndex (area a)"
  then have "\<forall>k\<in>set (firstSeen (map area accidents)). \<not> isArrayIndex k"
    by (simp add: set_firstSeen)
  then show "map fst (objectEntries (groupsOf accidents)) = firstSeen (map area accidents)"
    unfolding keys_entries_groupsOf by (rule ownPropertyKeys_no_index)
qed

text \<open>
  Claim C7, as amended. For every record list in which no area is the name of a
  property of \<^verbatim>\<open>Object.prototype\<close>, grouping by area succeeds and is a partition:
  the groups are keyed by the areas that occur, each key once; the group of a key
  is non-empty and holds exactly the records of that area, in input order; the
  group sizes add up to the input length. \<^verbatim>\<open>Object.entries\<close> lists the keys that
  are array indices first, in ascending numeric order, and then the other keys in
  first-seen order. The empty input gives the empty object and no error.
\<close>

theorem grouping_is_partition:
  assumes "\<forall>a\<in>set accidents. area a \<notin> set objectPrototypeKeys"
  shows "\<exists>groups. areaGroups accidents = Inr groups
     \<and> objectEntries groups =
         map (\<lambda>k. (k, filter (\<lambda>a. area a = k) accidents))
             (ownPropertyKeys (firstSeen (map area accidents)))
     \<and> distinct (map fst (objectEntries groups))
     \<and> fst ` set (objectEntries groups) = area ` set accidents
     \<and> (\<forall>e\<in>set (objectEntries groups).
           snd e \<noteq> [] \<and> snd e = filter (\<lambda>a. area a = fst e) accidents)
     \<and> sum_list (map (\<lambda>e. length (snd e)) (objectEntries groups)) = length accidents
     \<and> map fst (objectEntries groups) =
         filter isArrayIndex (map fst (objectEntries groups))
         @ filter (\<lambda>k. \<not> isArrayIndex k) (map fst (objectEntries groups))
     \<and> sorted (map arrayIndexValue (filter isArrayIndex (map fst (objectEntries groups))))
     \<and> filter (\<lambda>k. \<not> isArrayIndex k) (map fst (objectEntries groups))
         = firstSeen (filter (\<lambda>k. \<not> isArrayIndex k) (map area accidents))
     \<and> ((\<forall>a\<in>set accidents. \<not> isArrayIndex (area a)) \<longrightarrow>
           map fst (objectEntries groups) = firstSeen (map area accidents))
     \<and> areaGroups [] = Inr [] \<and> objectEntries ([] :: Accident list jsObject) = []"
proof -
  let ?g = "groupsOf accidents"
  have e: "areaGroups [] = Inr []" "objectEntries ([] :: Accident list jsObject) = []"
    by (simp_all add: areaGroups_def objectEntries_def)
  have m: "\<forall>e\<in>set (objectEntries ?g). snd e \<noteq> [] \<and> snd e = filter (\<lambda>a. area a = fst e) accidents"
    using members_groupsOf[of _ accidents] by blast
  have "areaGroups accidents = Inr ?g
     \<and> objectEntries ?g =
         map (\<lambda>k. (k, filter (\<lambda>a. area a = k) accidents))
             (ownPropertyKeys (firstSeen (map area accidents)))
     \<and> distinct (map fst (objectEntries ?g))
     \<and> fst ` set (objectEntries ?g) = area ` set accidents
     \<and> (\<forall>e\<in>set (objectEntries ?g).
           snd e \<noteq> [] \<and> snd e = filter (\<lambda>a. area a = fst e) accidents)
     \<and> sum_list (map (\<lambda>e. length (snd e)) (objectEntries ?g)) = length accidents
     \<and> map fst (objectEntries ?g) =
         filter isArrayIndex (map fst (objectEntries ?g))
         @ filter (\<lambda>k. \<not> isArrayIndex k) (map fst (objectEntries ?g))
     \<and> sorted (map arrayIndexValue (filter isArrayIndex (map fst (objectEntries ?g))))
     \<and> filter (\<lambda>k. \<not> isArrayIndex k) (map fst (objectEntries ?g))
         = firstSeen (filter (\<lambda>k. \<not> isArrayIndex k) (map area accidents))
     \<and> ((\<forall>a\<in>set accidents. \<not> isArrayIndex (area a)) \<longrightarrow>
           map fst (objectEntries ?g) = firstSeen (map area accidents))
     \<and> areaGroups [] = Inr [] \<and> objectEntries ([] :: Accident list jsObject) = []"
    by (intro conjI areaGroups_groupsOf[OF assms] entries_groupsOf distinct_keys_groupsOf
          set_keys_groupsOf m sizes_groupsOf index_keys_first_groupsOf index_keys_groupsOf
          other_keys_groupsOf plain_keys_groupsOf e)
  then show ?thesis by (rule exI[where x = "?g"])
qed

theorem grouping_is_partition_witness:
  "\<exists>groups. areaGroups groupingExample = Inr groups
     \<and> map fst (objectEntries groups) = [''2'', ''10'', ''Rohini'', ''Dwarka'']
     \<and> map (\<lambda>e. map accidentId (snd e)) (objectEntries groups)
          = [[''r4''], [''r2''], [''r1'', ''r5''], [''r3'']]
     \<and> sum_list (map (\<lambda>e. length (snd e)) (objectEntries groups)) = 5"
proof -
  have h: "\<forall>a\<in>set groupingExample. area a \<notin> set objectPrototypeKeys"
    by (simp add: groupingExample_def accidentOf_def objectPrototypeKeys_def)
  obtain groups where g: "areaGroups groupingExample = Inr groups"
    "objectEntries groups =
       map (\<lambda>k. (k, filter (\<lambda>a. area a = k) groupingExample))
           (ownPropertyKeys (firstSeen (map area groupingExample)))"
    "sum_list (map (\<lambda>e. length (snd e)) (objectEntries groups)) = length groupingExample"
    using grouping_is_partition[OF h] by blast
  have k: "map fst (map (\<lambda>k. (k, filter (\<lambda>a. area a = k) groupingExample))
           (ownPropertyKeys (firstSeen (map area groupingExample))))
         = [''2'', ''10'', ''Rohini'', ''Dwarka'']"
    by code_simp
  have m: "map (\<lambda>e. map accidentId (snd e)) (map (\<lambda>k. (k, filter (\<lambda>a. area a = k) groupingExample))
           (ownPropertyKeys (firstSeen (map area groupingExample))))
         = [[''r4''], [''r2''], [''r1'', ''r5''], [''r3'']]"
    by code_simp
  have l: "length groupingExample = 5" by (simp add: groupingExample_def)
  show ?thesis
    using g k m l by (intro exI[where x = groups]) (simp only: simp_thms)
qed

text \<open>
  Against the claim as written: with the areas "b" and "1", in this order, the
  key "1" is listed before "b"; and a record whose area is "constructor" is put
  in no group, the grouping throws.
\<close>

theorem grouping_is_partition_counterexample:
  "areaGroups [accidentOf ''r1'' ''08:15'' ''b'' None None None,
               accidentOf ''r2'' ''09:15'' ''1'' None None None]
     = Inr [(''b'', [accidentOf ''r1'' ''08:15'' ''b'' None None None]),
            (''1'', [accidentOf ''r2'' ''09:15'' ''1'' None None None])]
   \<and> map fst (objectEntries
        [(''b'', [accidentOf ''r1'' ''08:15'' ''b'' None None None]),
         (''1'', [accidentOf ''r2'' ''09:15'' ''1'' None None None])]) = [''1'', ''b'']
   \<and> firstSeen (map area [accidentOf ''r1'' ''08:15'' ''b'' None None None,
                           accidentOf ''r2'' ''09:15'' ''1'' None None None]) = [''b'', ''1'']
   \<and> areaGroups [accidentOf ''r1'' ''08:15'' ''constructor'' None None None] = Inl TypeError"
  by code_simp

subsection \<open>The dashboard\<close>

lemma putEntry_new:
  "k \<notin> fst ` set ps \<Longrightarrow> putEntry k v ps = ps @ [(k, v)]"
  by (induction ps) auto

lemma fold_analyticsStep:
  assumes "distinct (map fst es)" and "fst ` set es \<inter> fst ` set acc = {}"
  shows "fold (analyticsStep classify) es acc =
           acc @ map (\<lambda>e. (fst e, length (snd e), classify (snd e))) es"
  using assms
proof (induction es arbitrary: acc)
  case Nil
  show ?case by simp
next
  case (Cons e es)
  let ?v = "(length (snd e), classify (snd e))"
  have new: "fst e \<notin> fst ` set acc" using Cons.prems(2) by auto
  have step: "analyticsStep classify e acc = acc @ [(fst e, ?v)]"
    by (simp add: analyticsStep_def putEntry_new[OF new])
  have d: "distinct (map fst es)" using Cons.prems(1) by simp
  have "fst e \<notin> fst ` set es" using Cons.prems(1) by (simp add: image_iff)
  then have disj: "fst ` set es \<inter> fst ` set (acc @ [(fst e, ?v)]) = {}"
    using Cons.prems(2) by auto
  show ?case
    unfolding fold_simps step Cons.IH[OF d disj] by simp
qed

text \<open>
  Whatever the classifier, the level that the page shows for an area is the
  classifier's answer to the records of that area alone: the scores of the other
  areas do not reach it.
\<close>

lemma areaAnalytics_closed:
  assumes "\<forall>a\<in>set accidents. area a \<notin> set objectPrototypeKeys"
  shows "areaAnalytics classify accidents =
           Inr (map (\<lambda>k. (k, length (filter (\<lambda>a. area a = k) accidents),
                          classify (filter (\<lambda>a. area a = k) accidents)))
                    (ownPropertyKeys (firstSeen (map area accidents))))"
proof -
  have "fold (analyticsStep classify) (objectEntries (groupsOf accidents)) [] =
          [] @ map (\<lambda>e. (fst e, length (snd e), classify (snd e)))
                   (objectEntries (groupsOf accidents))"
    by (rule fold_analyticsStep[OF distinct_keys_groupsOf]) simp
  then show ?thesis
    by (simp add: areaAnalytics_def areaGroups_groupsOf[OF assms] entries_groupsOf comp_def)
qed

text \<open>
  Claim C2. The claim is that the level the dashboard computes for an area is the
  percentile classification of the area's score against the scores of all areas.
  The page does not do so. On \<open>dashboardExample\<close> the areas score 65 and 105 and the
  percentiles of these two scores are 75 and 95, in exact and in double arithmetic;
  the percentile classification of the first area against these two scores is safe,
  while the page, which passes the records of the area and nothing else, shows it
  as high-risk, with the classifier of the percentile-based revision (called
  without a population) and with the one of the earlier revision alike.
\<close>

theorem dashboard_passes_no_population:
  "calculateAreaScores dashboardExample = Inr ([(''Rohini'', 65), (''Dwarka'', 105)], [65, 105])
   \<and> calculatePercentile (map of_int [65, 105]) 25 = Some 75
   \<and> calculatePercentile (map of_int [65, 105]) 75 = Some 95
   \<and> calculatePercentileDouble (map of_int [65, 105]) 25 = Some 75
   \<and> calculatePercentileDouble (map of_int [65, 105]) 75 = Some 95
   \<and> calculateSafetyLevelFromAccidents (filter (\<lambda>a. area a = ''Rohini'') dashboardExample)
        (Some (map of_int [65, 105])) = Safe
   \<and> calculateSafetyLevelFromAccidents (filter (\<lambda>a. area a = ''Dwarka'') dashboardExample)
        (Some (map of_int [65, 105])) = HighRisk
   \<and> areaAnalytics (\<lambda>areaAccidents. calculateSafetyLevelFromAccidents areaAccidents None)
        dashboardExample
        = Inr [(''Rohini'', 2, HighRisk), (''Dwarka'', 1, HighRisk)]
   \<and> areaAnalytics calculateSafetyLevelFromAccidentsEarlier dashboardExample
        = Inr [(''Rohini'', 2, HighRisk), (''Dwarka'', 1, HighRisk)]"
  by code_simp

subsection \<open>Cause ranking\<close>

lemma tallyStep_tallyOf:
  assumes "causeOf a \<notin> set objectPrototypeKeys"
  shows "tallyStep (tallyOf pre) a = Some (tallyOf (pre @ [a]))"
proof (cases "causeOf a \<in> set (map causeOf pre)")
  case True
  have np: "(causeOf a = ''__proto__'') = False"
    using assms by (auto simp: objectPrototypeKeys_def)
  from True have m: "causeOf a \<in> set (firstSeen (map causeOf pre))" by (simp add: set_firstSeen)
  let ?n = "int (length (filter (\<lambda>b. causeOf b = causeOf a) pre))"
  have "putEntry (causeOf a) (?n + 1) (tallyOf pre)
          = map (\<lambda>k. (k, if k = causeOf a then ?n + 1
                          else int (length (filter (\<lambda>b. causeOf b = k) pre)))) (firstSeen (map causeOf pre))"
    unfolding tallyOf_def by (rule putEntry_present[OF m distinct_firstSeen])
  also have "\<dots> = tallyOf (pre @ [a])"
    using True unfolding tallyOf_def by (auto simp: firstSeen_snoc)
  finally have p: "putEntry (causeOf a) (?n + 1) (tallyOf pre) = tallyOf (pre @ [a])" .
  have l: "map_of (tallyOf pre) (causeOf a) = Some ?n"
    using m by (simp add: tallyOf_def map_of_keyed)
  have s: "(if ?n = 0 then 0 else ?n) + 1 = ?n + 1" by simp
  show ?thesis
    unfolding tallyStep_def Let_def l by (simp only: np if_False option.case s p)
next
  case False
  have np: "(causeOf a = ''__proto__'') = False"
    using assms by (auto simp: objectPrototypeKeys_def)
  from False have m: "causeOf a \<notin> set (firstSeen (map causeOf pre))" by (simp add: set_firstSeen)
  have "\<And>b. b \<in> set pre \<Longrightarrow> causeOf b \<noteq> causeOf a"
    using False by (metis image_eqI set_map)
  then have f0: "filter (\<lambda>b. causeOf b = causeOf a) pre = []"
    by (simp add: filter_empty_conv)
  have "putEntry (causeOf a) (0 + 1) (tallyOf pre) = tallyOf pre @ [(causeOf a, 0 + 1)]"
    unfolding tallyOf_def by (rule putEntry_absent[OF m])
  also have "\<dots> = tallyOf (pre @ [a])"
    using False m f0 unfolding tallyOf_def
    by (auto simp: firstSeen_snoc set_firstSeen)
  finally have p: "putEntry (causeOf a) (0 + 1) (tallyOf pre) = tallyOf (pre @ [a])" .
  have l: "map_of (tallyOf pre) (causeOf a) = None"
    using m by (simp add: tallyOf_def map_of_keyed)
  show ?thesis
    unfolding tallyStep_def Let_def l using p assms by (simp add: np)
qed

lemma reduceTally_tallyOf:
  assumes "\<forall>a\<in>set rest. causeOf a \<notin> set objectPrototypeKeys"
  shows "reduceTally (tallyOf pre) rest = Some (tallyOf (pre @ rest))"
  using assms
proof (induction rest arbitrary: pre)
  case Nil
  show ?case by simp
next
  case (Cons a rest)
  have "reduceTally (tallyOf pre) (a # rest) = reduceTally (tallyOf (pre @ [a])) rest"
    using Cons.prems by (simp add: tallyStep_tallyOf)
  also have "\<dots> = Some (tallyOf ((pre @ [a]) @ rest))"
    using Cons.prems by (intro Cons.IH) simp
  finally show ?case by simp
qed

lemma causeCounts_tallyOf:
  assumes "\<forall>a\<in>set accidents. causeOf a \<notin> set objectPrototypeKeys"
  shows "causeCounts accidents = Some (tallyOf accidents)"
proof -
  have "tallyOf [] = []" by (simp add: tallyOf_def firstSeen_Nil)
  then show ?thesis
    using reduceTally_tallyOf[OF assms, of "[]"] by (simp add: causeCounts_def)
qed

lemma getTopCauses_closed:
  assumes "\<forall>a\<in>set accidents. causeOf a \<notin> set objectPrototypeKeys"
  shows "getTopCauses accidents =
     Some (take 5 (sort_key (\<lambda>e. - snd e)
       (map (\<lambda>c. (c, int (length (filter (\<lambda>a. causeOf a = c) accidents))))
            (ownPropertyKeys (firstSeen (map causeOf accidents))))))"
proof -
  have "objectEntries (tallyOf accidents) =
          map (\<lambda>c. (c, int (length (filter (\<lambda>a. causeOf a = c) accidents))))
              (ownPropertyKeys (firstSeen (map causeOf accidents)))"
    unfolding tallyOf_def by (rule objectEntries_keyed)
  then show ?thesis
    by (simp add: getTopCauses_def causeCounts_tallyOf[OF assms])
qed

lemma sorted_take_drop_le:
  assumes "sorted (map f xs)" and "x \<in> set (take n xs)" and "y \<in> set (drop n xs)"
  shows "f x \<le> f y"
proof -
  have "sorted (map f (take n xs) @ map f (drop n xs))"
    using assms(1) by (simp add: map_append[symmetric] del: map_append)
  then show ?thesis using assms(2,3) by (auto simp: sorted_append)
qed

lemma distinct_map_sort_key:
  "distinct (map g (sort_key f xs)) = distinct (map g xs)"
  by (simp add: distinct_map)

text \<open>
  Claim C8, as amended. For every record list in which no cause (with "Unknown"
  for an absent or empty one) is the name of a property of \<^verbatim>\<open>Object.prototype\<close>,
  \<open>getTopCauses\<close> returns the first five entries of the stable sort, by descending
  count, of the exact tallies of the distinct causes, compared as they are
  written; so the counts are descending, no cause left out has a larger count
  than one returned, and causes of equal count keep the order in which
  \<^verbatim>\<open>Object.entries\<close> lists them: causes that are array indices first, in ascending
  numeric order, then the others in first-seen order. When no cause is an array
  index this is the first-seen order throughout. The causes A, B, A, C, B, A give
  (A, 3), (B, 2), (C, 1).
\<close>

theorem getTopCauses_ranking:
  assumes "\<forall>a\<in>set accidents. causeOf a \<notin> set objectPrototypeKeys"
  shows "\<exists>top. getTopCauses accidents = Some top
     \<and> top = take 5 (sort_key (\<lambda>e. - snd e)
               (map (\<lambda>c. (c, int (length (filter (\<lambda>a. causeOf a = c) accidents))))
                    (ownPropertyKeys (firstSeen (map causeOf accidents)))))
     \<and> length top = min 5 (card (causeOf ` set accidents))
     \<and> distinct (map fst top)
     \<and> (\<forall>e\<in>set top. snd e = int (length (filter (\<lambda>a. causeOf a = fst e) accidents)) \<and> 0 < snd e)
     \<and> sorted_wrt (\<lambda>m n. m \<ge> n) (map snd top)
     \<and> (\<forall>c\<in>causeOf ` set accidents. c \<notin> fst ` set top \<longrightarrow>
           (\<forall>e\<in>set top. int (length (filter (\<lambda>a. causeOf a = c) accidents)) \<le> snd e))
     \<and> ((\<forall>a\<in>set accidents. \<not> isArrayIndex (causeOf a)) \<longrightarrow>
           top = take 5 (sort_key (\<lambda>e. - snd e)
                   (map (\<lambda>c. (c, int (length (filter (\<lambda>a. causeOf a = c) accidents))))
                        (firstSeen (map causeOf accidents)))))
     \<and> getTopCauses rankingExample = Some [(''A'', 3), (''B'', 2), (''C'', 1)]"
proof -
  let ?cnt = "\<lambda>c. int (length (filter (\<lambda>a. causeOf a = c) accidents))"
  let ?keys = "ownPropertyKeys (firstSeen (map causeOf accidents))"
  let ?all = "sort_key (\<lambda>e. - snd e) (map (\<lambda>c. (c, ?cnt c)) ?keys)"
  let ?top = "take 5 ?all"
  have keys_set: "set ?keys = causeOf ` set accidents"
    by (simp add: set_ownPropertyKeys set_firstSeen)
  have keys_distinct: "distinct ?keys"
    by (intro distinct_ownPropertyKeys distinct_firstSeen)
  have all_set: "set ?all = (\<lambda>c. (c, ?cnt c)) ` (causeOf ` set accidents)"
    using keys_set by simp
  have c1: "getTopCauses accidents = Some ?top" by (rule getTopCauses_closed[OF assms])
  have c3: "length ?top = min 5 (card (causeOf ` set accidents))"
  proof -
    have "length ?keys = card (set ?keys)" using keys_distinct by (simp add: distinct_card)
    then show ?thesis by (simp add: keys_set min.commute)
  qed
  have c4: "distinct (map fst ?top)"
  proof -
    have "distinct (map fst (map (\<lambda>c. (c, ?cnt c)) ?keys))"
      using keys_distinct by (simp add: comp_def)
    then have "distinct (map fst ?all)" by (simp only: distinct_map_sort_key)
    then have "distinct (take 5 (map fst ?all))" by (rule distinct_take)
    then show ?thesis by (simp only: take_map)
  qed
  have c5: "\<forall>e\<in>set ?top. snd e = ?cnt (fst e) \<and> 0 < snd e"
  proof
    fix e assume "e \<in> set ?top"
    then have "e \<in> set ?all" by (rule in_set_takeD)
    then obtain c where c: "c \<in> causeOf ` set accidents" "e = (c, ?cnt c)"
      unfolding all_set by blast
    obtain a where a: "a \<in> set accidents" "causeOf a = c" using c(1) by auto
    then have "a \<in> set (filter (\<lambda>a. causeOf a = c) accidents)" by simp
    then have "0 < length (filter (\<lambda>a. causeOf a = c) accidents)" by (rule length_pos_if_in_set)
    then show "snd e = ?cnt (fst e) \<and> 0 < snd e" unfolding c(2) by simp
  qed
  have srt: "sorted (map (\<lambda>e. - snd e) ?all)" by (rule sorted_sort_key)
  have c6: "sorted_wrt (\<lambda>m n. m \<ge> n) (map snd ?top)"
  proof -
    have "sorted (take 5 (map (\<lambda>e. - snd e) ?all))" using srt by (rule sorted_wrt_take)
    then have "sorted (map (\<lambda>e. - snd e) ?top)" by (simp only: take_map)
    then show ?thesis by (simp only: sorted_wrt_map neg_le_iff_le)
  qed
  have c7: "\<forall>c\<in>causeOf ` set accidents. c \<notin> fst ` set ?top \<longrightarrow> (\<forall>e\<in>set ?top. ?cnt c \<le> snd e)"
  proof (intro ballI impI)
    fix c e
    assume c: "c \<in> causeOf ` set accidents" and out: "c \<notin> fst ` set ?top" and e: "e \<in> set ?top"
    have "(c, ?cnt c) \<in> set ?all" unfolding all_set using c by blast
    then have "(c, ?cnt c) \<in> set (take 5 ?all) \<union> set (drop 5 ?all)"
      by (simp only: set_append[symmetric] append_take_drop_id)
    moreover have "(c, ?cnt c) \<notin> set ?top" using out by force
    ultimately have d: "(c, ?cnt c) \<in> set (drop 5 ?all)" by blast
    have "- snd e \<le> - snd (c, ?cnt c)" by (rule sorted_take_drop_le[OF srt e d])
    then show "?cnt c \<le> snd e" by simp
  qed
  have c8: "(\<forall>a\<in>set accidents. \<not> isArrayIndex (causeOf a)) \<longrightarrow>
           ?top = take 5 (sort_key (\<lambda>e. - snd e) (map (\<lambda>c. (c, ?cnt c)) (firstSeen (map causeOf accidents))))"
  proof
    assume "\<forall>a\<in>set accidents. \<not> isArrayIndex (causeOf a)"
    then have "\<forall>k\<in>set (firstSeen (map causeOf accidents)). \<not> isArrayIndex k"
      by (simp add: set_firstSeen)
    then have "?keys = firstSeen (map causeOf accidents)" by (rule ownPropertyKeys_no_index)
    then show "?top = take 5 (sort_key (\<lambda>e. - snd e) (map (\<lambda>c. (c, ?cnt c)) (firstSeen (map causeOf accidents))))"
      by simp
  qed
  have c9: "getTopCauses rankingExample = Some [(''A'', 3), (''B'', 2), (''C'', 1)]"
    by code_simp
  show ?thesis
    by (rule exI[where x = "?top"]) (intro conjI c1 refl c3 c4 c5 c6 c7 c8 c9)
qed

theorem getTopCauses_ranking_witness:
  "getTopCauses causesExample =
     Some [(''Unknown'', 3), (''Speeding'', 2), (''7'', 1), (''Signal'', 1), (''Fog'', 1)]"
proof -
  have h: "\<forall>a\<in>set causesExample. causeOf a \<notin> set objectPrototypeKeys"
    by (simp add: causesExample_def accidentOf_def objectPrototypeKeys_def causeOf_def)
  obtain top where t: "getTopCauses causesExample = Some top"
    "top = take 5 (sort_key (\<lambda>e. - snd e)
               (map (\<lambda>c. (c, int (length (filter (\<lambda>a. causeOf a = c) causesExample))))
                    (ownPropertyKeys (firstSeen (map causeOf causesExample)))))"
    using getTopCauses_ranking[OF h] by blast
  have e: "take 5 (sort_key (\<lambda>e. - snd e)
               (map (\<lambda>c. (c, int (length (filter (\<lambda>a. causeOf a = c) causesExample))))
                    (ownPropertyKeys (firstSeen (map causeOf causesExample)))))
           = [(''Unknown'', 3), (''Speeding'', 2), (''7'', 1), (''Signal'', 1), (''Fog'', 1)]"
    by code_simp
  show ?thesis using t e by simp
qed

text \<open>
  Against the claim as written: the causes "B" and "1" are met in this order and
  both count once, yet "1" is ranked first.
\<close>

theorem getTopCauses_ranking_counterexample:
  "map causeOf [accidentOf ''r1'' ''08:15'' ''Rohini'' None None (Some ''B''),
                accidentOf ''r2'' ''09:15'' ''Rohini'' None None (Some ''1'')] = [''B'', ''1'']
   \<and> getTopCauses [accidentOf ''r1'' ''08:15'' ''Rohini'' None None (Some ''B''),
                    accidentOf ''r2'' ''09:15'' ''Rohini'' None None (Some ''1'')]
       = Some [(''1'', 1), (''B'', 1)]"
  by code_simp

end
